theory Spec2Isabelle
  imports Complex_Main
begin

section \<open>Errors and numeric values\<close>

text \<open>
  Every exception that \<^verbatim>\<open>calc.py\<close> raises, or that a Python 2 primitive it calls
  raises, is a value of \<open>error\<close>.  The three \<^verbatim>\<open>Exception(...)\<close> messages of the
  source are \<open>NumError\<close> (\<^verbatim>\<open>Lexer.lexnum\<close>), \<open>ParseError\<close> (\<^verbatim>\<open>Parser2.error\<close>, with
  the data and the byte position of the current lexeme), \<open>NotDefined\<close> and
  \<open>CantHandle\<close> (\<^verbatim>\<open>Code.gen\<close>).
\<close>

datatype error =
    NumError int
  | ParseError string int
  | NotDefined string
  | CantHandle
  | KeyError string
  | IndexError
  | ZeroDivisionError
  | ValueError
  | TypeError
  | OverflowError
  | StopIteration

text \<open>
  The program is Python 2 (\<^verbatim>\<open>print\<close> statements, \<^verbatim>\<open>gen.next()\<close>), so a number is an
  \<^verbatim>\<open>int\<close> (unbounded, through \<^verbatim>\<open>long\<close>), a \<^verbatim>\<open>float\<close> or a \<^verbatim>\<open>complex\<close>.  A float is
  the real number it stands for.  The conversion of a literal and the three
  divisions \<^verbatim>\<open>/\<close>, \<^verbatim>\<open>//\<close> and \<^verbatim>\<open>%\<close> round as binary64 does (below); the other
  float operations and the functions of \<^verbatim>\<open>math\<close> are the exact real ones.
  Infinities and NaN have no value here: what is proved about a float result
  says that it stays below \<open>2 ^ 1024\<close> where that matters.
\<close>

datatype val = VInt int | VFloat real | VComplex complex

definition ebind :: "error + 'a \<Rightarrow> ('a \<Rightarrow> error + 'b) \<Rightarrow> error + 'b" where
  "ebind m k = (case m of Inl x \<Rightarrow> Inl x | Inr a \<Rightarrow> k a)"

fun sequence :: "(error + 'a) list \<Rightarrow> error + 'a list" where
  "sequence [] = Inr []"
| "sequence (m # ms) = ebind m (\<lambda>a. ebind (sequence ms) (\<lambda>as. Inr (a # as)))"

fun is_complex :: "val \<Rightarrow> bool" where
  "is_complex (VComplex _) = True"
| "is_complex _ = False"


fun to_real :: "val \<Rightarrow> real" where
  "to_real (VInt a) = of_int a"
| "to_real (VFloat x) = x"
| "to_real (VComplex z) = Re z"

fun to_complex :: "val \<Rightarrow> complex" where
  "to_complex (VInt a) = of_int a"
| "to_complex (VFloat x) = of_real x"
| "to_complex (VComplex z) = z"

subsection \<open>Python 2 arithmetic\<close>

text \<open>
  The operators of Python 2 on the numeric tower: two ints stay int, a complex
  operand makes the operation complex, otherwise it is a float operation.
\<close>

definition coerce ::
  "(int \<Rightarrow> int \<Rightarrow> error + val) \<Rightarrow> (real \<Rightarrow> real \<Rightarrow> error + val) \<Rightarrow>
   (complex \<Rightarrow> complex \<Rightarrow> error + val) \<Rightarrow> val \<Rightarrow> val \<Rightarrow> error + val" where
  "coerce fi fr fc a b =
     (if is_complex a \<or> is_complex b then fc (to_complex a) (to_complex b)
      else case (a, b) of
        (VInt x, VInt y) \<Rightarrow> fi x y
      | _ \<Rightarrow> fr (to_real a) (to_real b))"

definition py_add :: "val \<Rightarrow> val \<Rightarrow> error + val" where
  "py_add = coerce (\<lambda>x y. Inr (VInt (x + y))) (\<lambda>x y. Inr (VFloat (x + y)))
                   (\<lambda>x y. Inr (VComplex (x + y)))"

definition py_sub :: "val \<Rightarrow> val \<Rightarrow> error + val" where
  "py_sub = coerce (\<lambda>x y. Inr (VInt (x - y))) (\<lambda>x y. Inr (VFloat (x - y)))
                   (\<lambda>x y. Inr (VComplex (x - y)))"

definition py_mul :: "val \<Rightarrow> val \<Rightarrow> error + val" where
  "py_mul = coerce (\<lambda>x y. Inr (VInt (x * y))) (\<lambda>x y. Inr (VFloat (x * y)))
                   (\<lambda>x y. Inr (VComplex (x * y)))"

subsection \<open>Binary64 rounding and the divisions\<close>


definition round_even :: "real \<Rightarrow> int" where
  "round_even q =
     (let f = \<lfloor>q\<rfloor> in
      if q - of_int f < 1 / 2 then f
      else if 1 / 2 < q - of_int f then f + 1
      else if even f then f else f + 1)"

definition ulp_exp :: "real \<Rightarrow> int" where
  "ulp_exp x = max \<lfloor>log 2 \<bar>x\<bar>\<rfloor> (- 1022) - 52"

definition round_double :: "real \<Rightarrow> real" where
  "round_double x =
     (if x = 0 then 0 else of_int (round_even (x / 2 powi ulp_exp x)) * 2 powi ulp_exp x)"

text \<open>
  The operands of a division are converted as \<^verbatim>\<open>CONVERT_TO_DOUBLE\<close> and
  \<^verbatim>\<open>TO_COMPLEX\<close> do: an int is rounded to a double, and an int that rounds beyond
  the largest double is an OverflowError.
\<close>

definition overflows :: "real \<Rightarrow> bool" where
  "overflows r = (2 ^ 1024 \<le> \<bar>r\<bar>)"

fun as_double :: "val \<Rightarrow> error + real" where
  "as_double (VInt a) =
     (let r = round_double (of_int a)
      in if overflows r then Inl OverflowError else Inr r)"
| "as_double (VFloat x) = Inr x"
| "as_double (VComplex z) = Inl TypeError"

fun as_complex :: "val \<Rightarrow> error + complex" where
  "as_complex (VComplex z) = Inr z"
| "as_complex (VInt a) = ebind (as_double (VInt a)) (\<lambda>x. Inr (of_real x))"
| "as_complex (VFloat x) = Inr (of_real x)"

definition coerce_double ::
  "(int \<Rightarrow> int \<Rightarrow> error + val) \<Rightarrow> (real \<Rightarrow> real \<Rightarrow> error + val) \<Rightarrow>
   (complex \<Rightarrow> complex \<Rightarrow> error + val) \<Rightarrow> val \<Rightarrow> val \<Rightarrow> error + val" where
  "coerce_double fi fr fc a b =
     (if is_complex a \<or> is_complex b then
        ebind (as_complex a) (\<lambda>x. ebind (as_complex b) (\<lambda>y. fc x y))
      else case (a, b) of
        (VInt x, VInt y) \<Rightarrow> fi x y
      | _ \<Rightarrow> ebind (as_double a) (\<lambda>x. ebind (as_double b) (\<lambda>y. fr x y)))"

text \<open>
  \<^verbatim>\<open>float_div\<close>: the quotient, rounded.  \<^verbatim>\<open>c_quot\<close>: the quotient of two complex
  numbers, computed as C does after dividing both by the larger component of
  the divisor, each operation rounded.
\<close>

definition float_div :: "real \<Rightarrow> real \<Rightarrow> error + val" where
  "float_div x y =
     (if y = 0 then Inl ZeroDivisionError else Inr (VFloat (round_double (x / y))))"

definition c_quot :: "complex \<Rightarrow> complex \<Rightarrow> error + complex" where
  "c_quot a b =
     (if \<bar>Im b\<bar> \<le> \<bar>Re b\<bar> then
        (if \<bar>Re b\<bar> = 0 then Inl ZeroDivisionError
         else
           let ratio = round_double (Im b / Re b);
               denom = round_double (Re b + round_double (Im b * ratio))
           in Inr (Complex
                (round_double (round_double (Re a + round_double (Im a * ratio)) / denom))
                (round_double (round_double (Im a - round_double (Re a * ratio)) / denom))))
      else
        let ratio = round_double (Re b / Im b);
            denom = round_double (round_double (Re b * ratio) + Im b)
        in Inr (Complex
             (round_double (round_double (round_double (Re a * ratio) + Im a) / denom))
             (round_double (round_double (round_double (Im a * ratio) - Re a) / denom))))"

text \<open>
  Python 2 has no \<^verbatim>\<open>from __future__ import division\<close> here, so \<^verbatim>\<open>/\<close> is the classic
  division: the floor of the quotient on two ints, the rounded quotient
  otherwise.
\<close>

definition py_div :: "val \<Rightarrow> val \<Rightarrow> error + val" where
  "py_div = coerce_double
     (\<lambda>x y. if y = 0 then Inl ZeroDivisionError else Inr (VInt (x div y)))
     float_div
     (\<lambda>x y. ebind (c_quot x y) (\<lambda>q. Inr (VComplex q)))"

text \<open>
  \<^verbatim>\<open>//\<close> and \<^verbatim>\<open>%\<close> on floats follow \<^verbatim>\<open>float_divmod\<close> and \<^verbatim>\<open>float_rem\<close>: the remainder is
  C's \<^verbatim>\<open>fmod\<close> (exact, with the sign of the dividend), moved to the sign of the
  divisor, and the quotient is computed from it and snapped to an integer.
\<close>

definition fmod :: "real \<Rightarrow> real \<Rightarrow> real" where
  "fmod x y = x - y * of_int (if 0 \<le> x / y then \<lfloor>x / y\<rfloor> else \<lceil>x / y\<rceil>)"

definition float_divmod :: "real \<Rightarrow> real \<Rightarrow> error + real \<times> real" where
  "float_divmod vx wx =
     (if wx = 0 then Inl ZeroDivisionError
      else
        let mod0 = fmod vx wx;
            div0 = round_double (round_double (vx - mod0) / wx);
            adjust = (mod0 \<noteq> 0 \<and> (wx < 0) \<noteq> (mod0 < 0));
            md = (if adjust then round_double (mod0 + wx) else mod0);
            dv = (if adjust then round_double (div0 - 1) else div0);
            fl = of_int \<lfloor>dv\<rfloor>;
            floordiv =
              (if dv \<noteq> 0 then
                 (if 1 / 2 < round_double (dv - fl) then round_double (fl + 1) else fl)
               else 0)
        in Inr (floordiv, md))"

definition float_rem :: "real \<Rightarrow> real \<Rightarrow> error + val" where
  "float_rem vx wx =
     (if wx = 0 then Inl ZeroDivisionError
      else
        let mod0 = fmod vx wx
        in Inr (VFloat (if mod0 \<noteq> 0 \<and> (wx < 0) \<noteq> (mod0 < 0)
                        then round_double (mod0 + wx) else mod0)))"

text \<open>
  On complex operands Python 2 still computes \<^verbatim>\<open>//\<close> and \<^verbatim>\<open>%\<close> (with a deprecation
  warning), from the floor of the real part of the quotient.
\<close>

definition complex_floordiv :: "complex \<Rightarrow> complex \<Rightarrow> error + val" where
  "complex_floordiv a b =
     ebind (c_quot a b) (\<lambda>q. Inr (VComplex (of_int \<lfloor>Re q\<rfloor>)))"

definition complex_rem :: "complex \<Rightarrow> complex \<Rightarrow> error + val" where
  "complex_rem a b =
     ebind (c_quot a b) (\<lambda>q.
       let f = of_int \<lfloor>Re q\<rfloor>
       in Inr (VComplex (Complex (round_double (Re a - round_double (Re b * f)))
                                 (round_double (Im a - round_double (Im b * f))))))"

definition py_floordiv :: "val \<Rightarrow> val \<Rightarrow> error + val" where
  "py_floordiv = coerce_double
     (\<lambda>x y. if y = 0 then Inl ZeroDivisionError else Inr (VInt (x div y)))
     (\<lambda>x y. ebind (float_divmod x y) (\<lambda>(d, m). Inr (VFloat d)))
     complex_floordiv"

definition py_mod :: "val \<Rightarrow> val \<Rightarrow> error + val" where
  "py_mod = coerce_double
     (\<lambda>x y. if y = 0 then Inl ZeroDivisionError else Inr (VInt (x mod y)))
     float_rem complex_rem"

text \<open>
  \<^verbatim>\<open>**\<close>.  A float power follows \<^verbatim>\<open>float_pow\<close>: anything to the power 0 is 1, zero to a
  negative power is a ZeroDivisionError, a negative base with a fractional
  exponent is a ValueError.  An int power with a negative exponent is the float
  power of the converted operands.  A complex power follows \<^verbatim>\<open>c_pow\<close> (polar form).
\<close>

definition float_pow :: "real \<Rightarrow> real \<Rightarrow> error + val" where
  "float_pow x y =
     (if y = 0 then Inr (VFloat 1)
      else if x = 0 then (if y < 0 then Inl ZeroDivisionError else Inr (VFloat 0))
      else if x < 0 then
        (if y \<noteq> of_int \<lfloor>y\<rfloor> then Inl ValueError
         else Inr (VFloat ((if odd \<lfloor>y\<rfloor> then - 1 else 1) * (\<bar>x\<bar> powr y))))
      else Inr (VFloat (x powr y)))"

definition complex_pow :: "complex \<Rightarrow> complex \<Rightarrow> error + val" where
  "complex_pow a b =
     (if b = 0 then Inr (VComplex 1)
      else if a = 0 then
        (if Im b \<noteq> 0 \<or> Re b < 0 then Inl ZeroDivisionError else Inr (VComplex 0))
      else
        (let vabs = cmod a;
             len = (vabs powr Re b) / exp (Arg a * Im b);
             phase = Arg a * Re b + Im b * ln vabs
         in Inr (VComplex (Complex (len * cos phase) (len * sin phase)))))"

definition py_pow :: "val \<Rightarrow> val \<Rightarrow> error + val" where
  "py_pow = coerce
     (\<lambda>x y. if 0 \<le> y then Inr (VInt (x ^ nat y)) else float_pow (of_int x) (of_int y))
     float_pow complex_pow"

fun py_neg :: "val \<Rightarrow> error + val" where
  "py_neg (VInt a) = Inr (VInt (- a))"
| "py_neg (VFloat x) = Inr (VFloat (- x))"
| "py_neg (VComplex z) = Inr (VComplex (- z))"

fun py_abs :: "val \<Rightarrow> error + val" where
  "py_abs (VInt a) = Inr (VInt \<bar>a\<bar>)"
| "py_abs (VFloat x) = Inr (VFloat \<bar>x\<bar>)"
| "py_abs (VComplex z) = Inr (VFloat (cmod z))"

subsection \<open>The \<^verbatim>\<open>math\<close> module and the builtins \<^verbatim>\<open>round\<close> and \<^verbatim>\<open>min\<close>\<close>

text \<open>
  \<^verbatim>\<open>math.factorial\<close> accepts an int or a float of integral value, and raises
  ValueError on a negative or fractional one; the \<^verbatim>\<open>math\<close> functions refuse a
  complex argument with a TypeError.
\<close>

fun math_factorial :: "val \<Rightarrow> error + val" where
  "math_factorial (VInt a) =
     (if a < 0 then Inl ValueError else Inr (VInt (int (fact (nat a)))))"
| "math_factorial (VFloat x) =
     (if x \<noteq> of_int \<lfloor>x\<rfloor> then Inl ValueError
      else if x < 0 then Inl ValueError
      else Inr (VInt (int (fact (nat \<lfloor>x\<rfloor>)))))"
| "math_factorial (VComplex z) = Inl TypeError"

definition math_real :: "(real \<Rightarrow> error + val) \<Rightarrow> val \<Rightarrow> error + val" where
  "math_real g a = (if is_complex a then Inl TypeError else g (to_real a))"

definition math_ceil :: "val \<Rightarrow> error + val" where
  "math_ceil = math_real (\<lambda>x. Inr (VFloat (of_int \<lceil>x\<rceil>)))"

definition math_floor :: "val \<Rightarrow> error + val" where
  "math_floor = math_real (\<lambda>x. Inr (VFloat (of_int \<lfloor>x\<rfloor>)))"

definition math_cos :: "val \<Rightarrow> error + val" where
  "math_cos = math_real (\<lambda>x. Inr (VFloat (cos x)))"

definition math_sin :: "val \<Rightarrow> error + val" where
  "math_sin = math_real (\<lambda>x. Inr (VFloat (sin x)))"

definition math_tan :: "val \<Rightarrow> error + val" where
  "math_tan = math_real (\<lambda>x. Inr (VFloat (tan x)))"

definition math_degrees :: "val \<Rightarrow> error + val" where
  "math_degrees = math_real (\<lambda>x. Inr (VFloat (x * 180 / pi)))"

definition math_radians :: "val \<Rightarrow> error + val" where
  "math_radians = math_real (\<lambda>x. Inr (VFloat (x * pi / 180)))"

definition math_log :: "val \<Rightarrow> error + val" where
  "math_log = math_real (\<lambda>x. if x \<le> 0 then Inl ValueError else Inr (VFloat (ln x)))"

definition math_log10 :: "val \<Rightarrow> error + val" where
  "math_log10 =
     math_real (\<lambda>x. if x \<le> 0 then Inl ValueError else Inr (VFloat (log 10 x)))"

text \<open>\<^verbatim>\<open>math.log(x, 2)\<close> is the quotient of the two natural logarithms.\<close>

definition math_log_2 :: "val \<Rightarrow> error + val" where
  "math_log_2 =
     math_real (\<lambda>x. if x \<le> 0 then Inl ValueError else Inr (VFloat (ln x / ln 2)))"

text \<open>Python 2's \<^verbatim>\<open>round\<close> returns a float and rounds a half away from zero.\<close>

definition py_round :: "val \<Rightarrow> error + val" where
  "py_round = math_real (\<lambda>x. Inr (VFloat (sgn x * of_int \<lfloor>\<bar>x\<bar> + 1 / 2\<rfloor>)))"

text \<open>
  \<^verbatim>\<open>min\<close> of a list keeps the first item and replaces it by each later item that
  is smaller; an empty list is a ValueError, and ordering a complex number is a
  TypeError.
\<close>

definition py_lt :: "val \<Rightarrow> val \<Rightarrow> error + bool" where
  "py_lt a b =
     (if is_complex a \<or> is_complex b then Inl TypeError
      else Inr (to_real a < to_real b))"

fun min_loop :: "val \<Rightarrow> val list \<Rightarrow> error + val" where
  "min_loop cur [] = Inr cur"
| "min_loop cur (item # items) =
     ebind (py_lt item cur) (\<lambda>b. min_loop (if b then item else cur) items)"

fun py_min :: "val list \<Rightarrow> error + val" where
  "py_min [] = Inl ValueError"
| "py_min (v # vs) = min_loop v vs"

subsection \<open>Characters and numeric literals\<close>

text \<open>
  The character classes of a Python 2 byte string (in the C locale, where only
  ASCII letters, digits and blanks count).
\<close>

definition isdigit :: "char \<Rightarrow> bool" where
  "isdigit c = (c \<in> set ''0123456789'')"

definition isalpha :: "char \<Rightarrow> bool" where
  "isalpha c =
     (c \<in> set ''abcdefghijklmnopqrstuvwxyzABCDEFGHIJKLMNOPQRSTUVWXYZ'')"

definition isalnum :: "char \<Rightarrow> bool" where
  "isalnum c = (isalpha c \<or> isdigit c)"

definition isspace :: "char \<Rightarrow> bool" where
  "isspace c = (c \<in> set [CHR '' '', CHR 0x09, CHR 0x0A, CHR 0x0B, CHR 0x0C, CHR 0x0D])"

definition digit_val :: "char \<Rightarrow> int" where
  "digit_val c = int (of_char c) - 48"

definition decimal :: "string \<Rightarrow> int" where
  "decimal s = foldl (\<lambda>a c. 10 * a + digit_val c) 0 s"

text \<open>
  \<^verbatim>\<open>int(s)\<close> and \<^verbatim>\<open>float(s)\<close> on the texts the lexer produces: decimal digits, with one
  point for a float, whose value is rounded to the nearest double.  Any other
  text is a ValueError here (Python also accepts signs, blanks and exponents,
  which no lexeme of kind \<^verbatim>\<open>num\<close> contains).
\<close>

definition py_int :: "string \<Rightarrow> error + val" where
  "py_int s =
     (if s \<noteq> [] \<and> list_all isdigit s then Inr (VInt (decimal s)) else Inl ValueError)"

definition py_float :: "string \<Rightarrow> error + val" where
  "py_float s =
     (let ip = takeWhile (\<lambda>c. c \<noteq> CHR ''.'') s;
          fp = drop 1 (dropWhile (\<lambda>c. c \<noteq> CHR ''.'') s)
      in if list_all isdigit ip \<and> list_all isdigit fp \<and> (ip \<noteq> [] \<or> fp \<noteq> [])
         then Inr (VFloat (round_double
                (of_int (decimal ip) + of_int (decimal fp) / 10 ^ length fp)))
         else Inl ValueError)"

section \<open>Abstract syntax\<close>

text \<open>
  \<^verbatim>\<open>Expr(op, *args)\<close>.  The parser builds four shapes: \<^verbatim>\<open>Expr('num', text)\<close>,
  \<^verbatim>\<open>Expr('id', name)\<close>, \<^verbatim>\<open>Expr('apply', name, *exprs)\<close>, and \<^verbatim>\<open>Expr(op, *exprs)\<close> for
  the operators (\<open>Op op [a]\<close> for a unary minus, a factorial or an absolute
  value, \<open>Op op [a, b]\<close> for a binary operator).
\<close>

datatype expr =
    Num string
  | Ident string
  | Apply string "expr list"
  | Op string "expr list"

section \<open>Code generation\<close>

text \<open>
  A \<^verbatim>\<open>Code\<close> object holds the closure \<^verbatim>\<open>f\<close>, from the dictionary of variables to the
  result, and the list \<^verbatim>\<open>names\<close>.  A dictionary is a map; \<^verbatim>\<open>kw[s]\<close> on a missing key
  raises KeyError.
\<close>

type_synonym env = "string \<rightharpoonup> val"

datatype code = Code (code_f: "env \<Rightarrow> error + val") (names: "string list")

definition run :: "code \<Rightarrow> env \<Rightarrow> error + val" where
  "run c kw = code_f c kw"

definition lookup :: "string \<Rightarrow> env \<Rightarrow> error + val" where
  "lookup s kw = (case kw s of None \<Rightarrow> Inl (KeyError s) | Some v \<Rightarrow> Inr v)"

text \<open>
  The three ways \<^verbatim>\<open>Code.gen\<close> builds a node from its operands.  \<open>gen1\<close> compiles
  the first operand only (\<^verbatim>\<open>e.args[0]\<close> of an operator, \<^verbatim>\<open>e.args[1]\<close> of an
  application) and ignores the others; \<open>gen2\<close> compiles the first, then the
  second; \<open>genN\<close> compiles all of them, in order.  Reading an operand that
  is not there is an IndexError.  At run time the operands are evaluated in
  the same order, and then the operation is applied.
\<close>

definition gen1 ::
  "(expr \<Rightarrow> error + code) \<Rightarrow> (val \<Rightarrow> error + val) \<Rightarrow> expr list \<Rightarrow> error + code" where
  "gen1 g h args =
     (case args of
        [] \<Rightarrow> Inl IndexError
      | a # _ \<Rightarrow> ebind (g a) (\<lambda>lhs.
          Inr (Code (\<lambda>kw. ebind (run lhs kw) h) (names lhs))))"

definition gen2 ::
  "(expr \<Rightarrow> error + code) \<Rightarrow> (val \<Rightarrow> val \<Rightarrow> error + val) \<Rightarrow> expr list \<Rightarrow> error + code" where
  "gen2 g h args =
     (case args of
        [] \<Rightarrow> Inl IndexError
      | a # as \<Rightarrow> ebind (g a) (\<lambda>lhs.
          (case as of
             [] \<Rightarrow> Inl IndexError
           | b # _ \<Rightarrow> ebind (g b) (\<lambda>rhs.
               Inr (Code (\<lambda>kw. ebind (run lhs kw) (\<lambda>x. ebind (run rhs kw) (\<lambda>y. h x y)))
                         (names lhs @ names rhs))))))"

definition genN ::
  "(expr \<Rightarrow> error + code) \<Rightarrow> (val list \<Rightarrow> error + val) \<Rightarrow> expr list \<Rightarrow> error + code" where
  "genN g h args =
     ebind (sequence (map g args)) (\<lambda>cs.
       Inr (Code (\<lambda>kw. ebind (sequence (map (\<lambda>a. run a kw) cs)) h)
                 (concat (map names cs))))"

lemma gen1_cong [fundef_cong]:
  "args = args' \<Longrightarrow> (\<And>a. a \<in> set args' \<Longrightarrow> g a = g' a) \<Longrightarrow> gen1 g h args = gen1 g' h args'"
  by (cases args') (simp_all add: gen1_def)

lemma gen2_cong [fundef_cong]:
  "args = args' \<Longrightarrow> (\<And>a. a \<in> set args' \<Longrightarrow> g a = g' a) \<Longrightarrow> gen2 g h args = gen2 g' h args'"
  by (cases args'; cases "tl args'") (auto simp add: gen2_def)

lemma genN_cong [fundef_cong]:
  "args = args' \<Longrightarrow> (\<And>a. a \<in> set args' \<Longrightarrow> g a = g' a) \<Longrightarrow> genN g h args = genN g' h args'"
  by (simp add: genN_def cong: map_cong)

text \<open>
  \<^verbatim>\<open>Code.gen\<close>, branch by branch in the order of the source.  The branch of
  \<^verbatim>\<open>max\<close> calls \<^verbatim>\<open>min\<close>, as the source does.
\<close>

fun gen :: "expr \<Rightarrow> error + code" where
  "gen (Num s) =
     ebind (if CHR ''.'' \<in> set s then py_float s else py_int s) (\<lambda>n.
       Inr (Code (\<lambda>kw. Inr n) []))"
| "gen (Ident s) =
     (if s = ''e'' then Inr (Code (\<lambda>kw. Inr (VFloat (exp 1))) [])
      else if s = ''pi'' then Inr (Code (\<lambda>kw. Inr (VFloat pi)) [])
      else if s = ''i'' then Inr (Code (\<lambda>kw. Inr (VComplex \<i>)) [])
      else Inr (Code (\<lambda>kw. lookup s kw) [s]))"
| "gen (Op op args) =
     (if op = ''+'' then gen2 gen py_add args
      else if op = ''-'' then
        (if length args = 1 then gen1 gen py_neg args else gen2 gen py_sub args)
      else if op = ''*'' then gen2 gen py_mul args
      else if op = ''/'' then gen2 gen py_div args
      else if op = ''%'' then gen2 gen py_mod args
      else if op = ''//'' then gen2 gen py_floordiv args
      else if op = ''^'' then gen2 gen py_pow args
      else if op = ''!'' then gen1 gen math_factorial args
      else if op = ''abs'' then gen1 gen py_abs args
      else Inl CantHandle)"
| "gen (Apply fn args) =
     (if fn = ''abs'' then gen1 gen py_abs args
      else if fn = ''ceil'' then gen1 gen math_ceil args
      else if fn = ''cos'' then gen1 gen math_cos args
      else if fn = ''degrees'' then gen1 gen math_degrees args
      else if fn = ''floor'' then gen1 gen math_floor args
      else if fn = ''log'' then gen1 gen math_log args
      else if fn = ''log10'' then gen1 gen math_log10 args
      else if fn = ''log2'' then gen1 gen math_log_2 args
      else if fn = ''max'' then genN gen py_min args
      else if fn = ''min'' then genN gen py_min args
      else if fn = ''radians'' then gen1 gen math_radians args
      else if fn = ''round'' then gen1 gen py_round args
      else if fn = ''sin'' then gen1 gen math_sin args
      else if fn = ''tan'' then gen1 gen math_tan args
      else Inl (NotDefined fn))"

section \<open>The lexer\<close>

text \<open>
  \<^verbatim>\<open>Lexeme(name, pos, data)\<close>.  The end marker \<^verbatim>\<open>$\<close> of the lexer has the data \<^verbatim>\<open>None\<close>,
  which is the empty string here (no other lexeme has empty data).
\<close>

datatype lexeme = Lexeme (lx_name: string) (lx_pos: int) (lx_data: string)

text \<open>
  \<^verbatim>\<open>lexid\<close>: the first character and the alphanumeric characters after it.  The
  lexer works on the rest of the input \<^verbatim>\<open>data[i:]\<close> and the index \<open>i\<close>; each
  function returns the lexeme, the new index and the rest of the input.
\<close>

definition lexid :: "int \<Rightarrow> string \<Rightarrow> lexeme \<times> int \<times> string" where
  "lexid i s =
     (let w = take 1 s @ takeWhile isalnum (drop 1 s)
      in (Lexeme ''id'' i w, i + int (length w), drop (length w) s))"

text \<open>
  The match of \<^verbatim>\<open>(?:0|[1-9][0-9]*)(?:\.[0-9]+)?\<close> at the start of a string: the text
  matched, or \<open>None\<close>.
\<close>

definition num_frac :: "string \<Rightarrow> string" where
  "num_frac r =
     (case r of
        c # d # _ \<Rightarrow> if c = CHR ''.'' \<and> isdigit d then c # takeWhile isdigit (drop 1 r) else []
      | _ \<Rightarrow> [])"

definition num_re_match :: "string \<Rightarrow> string option" where
  "num_re_match s =
     (case s of
        [] \<Rightarrow> None
      | c # cs \<Rightarrow>
          if c = CHR ''0'' then Some (c # num_frac cs)
          else if c \<in> set ''123456789'' then
            Some (c # takeWhile isdigit cs @ num_frac (dropWhile isdigit cs))
          else None)"

definition lexnum :: "int \<Rightarrow> string \<Rightarrow> error + lexeme \<times> int \<times> string" where
  "lexnum i s =
     (case num_re_match s of
        None \<Rightarrow> Inl (NumError i)
      | Some m \<Rightarrow> Inr (Lexeme ''num'' i m, i + int (length m), drop (length m) s))"

lemma num_re_match_nonempty: "num_re_match s = Some m \<Longrightarrow> m \<noteq> []"
  by (auto simp add: num_re_match_def split: list.splits if_splits)

lemma lexnum_shorter:
  "lexnum i (c # cs) = Inr (lx, j, r) \<Longrightarrow> length r < Suc (length cs)"
  by (auto simp add: lexnum_def split: option.splits dest: num_re_match_nonempty)

lemma lexid_shorter: "lexid i (c # cs) = (lx, j, r) \<Longrightarrow> length r < Suc (length cs)"
  by (auto simp add: lexid_def Let_def)

text \<open>
  \<^verbatim>\<open>Lexer.lex\<close>: the generator's lexemes as a list, the end marker last.
\<close>

function lex_from :: "int \<Rightarrow> string \<Rightarrow> error + lexeme list" where
  "lex_from i [] = Inr [Lexeme ''$'' i []]"
| "lex_from i (c # cs) =
     (if isspace c then lex_from (i + 1) cs
      else if isalpha c then
        (case lexid i (c # cs) of
           (lx, j, r) \<Rightarrow> ebind (lex_from j r) (\<lambda>ls. Inr (lx # ls)))
      else if isdigit c then
        (case lexnum i (c # cs) of
           Inl x \<Rightarrow> Inl x
         | Inr (lx, j, r) \<Rightarrow> ebind (lex_from j r) (\<lambda>ls. Inr (lx # ls)))
      else if take 2 (c # cs) = ''//'' then
        ebind (lex_from (i + 2) (drop 2 (c # cs))) (\<lambda>ls. Inr (Lexeme ''//'' i ''//'' # ls))
      else ebind (lex_from (i + 1) cs) (\<lambda>ls. Inr (Lexeme [c] i [c] # ls)))"
  by pat_completeness auto
termination
  by (relation "measure (\<lambda>(i, s). length s)")
     (auto dest: lexid_shorter [OF sym] lexnum_shorter [OF sym] lexnum_shorter)

definition lex :: "string \<Rightarrow> error + lexeme list" where
  "lex text = lex_from 0 text"

section \<open>The parser\<close>

text \<open>
  The state of a \<^verbatim>\<open>Parser2\<close> is the current lexeme \<^verbatim>\<open>cur\<close> and what the generator
  \<^verbatim>\<open>gen\<close> has still to yield.  The parsing methods call each other recursively, so
  each takes a bound on the depth of the calls below it: \<open>None\<close> is a parse that
  needs deeper calls than the bound, \<open>Some (Inl x)\<close> a parse that raised \<open>x\<close>,
  and \<open>Some (Inr (a, s))\<close> one that returned \<open>a\<close> in the state \<open>s\<close>.
\<close>

type_synonym pstate = "lexeme \<times> lexeme list"

type_synonym 'a presult = "(error + 'a \<times> pstate) option"

definition pbind :: "'a presult \<Rightarrow> ('a \<Rightarrow> pstate \<Rightarrow> 'b presult) \<Rightarrow> 'b presult" where
  "pbind m k =
     (case m of
        None \<Rightarrow> None
      | Some (Inl x) \<Rightarrow> Some (Inl x)
      | Some (Inr (a, s)) \<Rightarrow> k a s)"

definition preturn :: "'a \<Rightarrow> pstate \<Rightarrow> 'a presult" where
  "preturn a s = Some (Inr (a, s))"

definition perror :: "pstate \<Rightarrow> 'a presult" where
  "perror s = Some (Inl (ParseError (lx_data (fst s)) (lx_pos (fst s))))"

definition lxin :: "pstate \<Rightarrow> string list \<Rightarrow> bool" where
  "lxin s nms = (lx_name (fst s) \<in> set nms)"

definition pnext :: "pstate \<Rightarrow> unit presult" where
  "pnext s =
     (if lx_name (fst s) = ''$'' then perror s
      else case snd s of
        [] \<Rightarrow> preturn () (Lexeme ''$'' (- 1) ''$'', [])
      | t # ts \<Rightarrow> preturn () (t, ts))"

text \<open>
  The methods \<^verbatim>\<open>parseEx_\<close>, \<^verbatim>\<open>parseE1_\<close>, \<^verbatim>\<open>parseE2_\<close>, \<^verbatim>\<open>parseE4_\<close>, \<^verbatim>\<open>parseE5_\<close> and
  \<^verbatim>\<open>parseL_\<close> of the source are written with a prime here.

  The list that a tail production returns, \<^verbatim>\<open>[op, expr, op, expr, ...]\<close>, is a
  list of pairs.  \<^verbatim>\<open>parseEx\<close> folds it to the left, or to the right when \<^verbatim>\<open>right\<close> is
  set.
\<close>

definition fold_left :: "expr \<Rightarrow> (string \<times> expr) list \<Rightarrow> expr" where
  "fold_left lhs lst = foldl (\<lambda>expr (op, e). Op op [expr, e]) lhs lst"

fun fold_right :: "expr \<Rightarrow> (string \<times> expr) list \<Rightarrow> expr" where
  "fold_right lhs [] = lhs"
| "fold_right lhs ((op, e) # lst) = Op op [lhs, fold_right e lst]"

definition parseEx ::
  "string list \<Rightarrow> (pstate \<Rightarrow> expr presult) \<Rightarrow> (pstate \<Rightarrow> (string \<times> expr) list presult) \<Rightarrow>
   bool \<Rightarrow> pstate \<Rightarrow> expr presult" where
  "parseEx nms f1 f2 right s =
     (if \<not> lxin s nms then perror s
      else pbind (f1 s) (\<lambda>lhs s1. pbind (f2 s1) (\<lambda>lst s2.
        if lst = [] then preturn lhs s2
        else if right then preturn (fold_right lhs lst) s2
        else preturn (fold_left lhs lst) s2)))"

fun parseEx' ::
  "nat \<Rightarrow> string list \<Rightarrow> string list \<Rightarrow> (pstate \<Rightarrow> expr presult) \<Rightarrow>
   pstate \<Rightarrow> (string \<times> expr) list presult" where
  "parseEx' 0 nms skips f1 s = None"
| "parseEx' (Suc n) nms skips f1 s =
     (if lxin s nms then
        pbind (pnext s) (\<lambda>_ s1. pbind (f1 s1) (\<lambda>lhs s2.
          pbind (parseEx' n nms skips f1 s2) (\<lambda>lst s3.
            preturn ((lx_name (fst s), lhs) # lst) s3)))
      else if lxin s skips then preturn [] s
      else perror s)"

fun parseE5' :: "nat \<Rightarrow> pstate \<Rightarrow> string option presult" where
  "parseE5' 0 s = None"
| "parseE5' (Suc n) s =
     (if lxin s [''!''] then
        pbind (pnext s) (\<lambda>_ s1. pbind (parseE5' n s1) (\<lambda>r s2.
          if r = None then preturn (Some ''!'') s2 else preturn None s2))
      else if lxin s [''^'', ''$'', ''*'', ''/'', ''//'', ''%'', ''+'', ''-'', '')'', ''|'', '','']
        then preturn None s
      else perror s)"

text \<open>
  The bodies of the mutually recursive methods, each with the methods it calls
  as parameters.

  \<^verbatim>\<open>parseE6\<close> has no last \<^verbatim>\<open>else\<close>: on any other lexeme the method would return
  \<^verbatim>\<open>None\<close>.  Its only caller \<^verbatim>\<open>parseE5\<close> has checked the same four names just before,
  so that branch is never taken; it is a parse error here.
\<close>

definition parseE3_body ::
  "(pstate \<Rightarrow> expr presult) \<Rightarrow> (pstate \<Rightarrow> expr presult) \<Rightarrow> pstate \<Rightarrow> expr presult" where
  "parseE3_body parseE3 parseE4 s =
     (if lxin s [''-''] then
        pbind (pnext s) (\<lambda>_ s1. pbind (parseE3 s1) (\<lambda>expr s2.
          preturn (Op ''-'' [expr]) s2))
      else if lxin s [''num'', ''id'', ''('', ''|''] then parseE4 s
      else perror s)"

definition parseE5_body ::
  "(pstate \<Rightarrow> expr presult) \<Rightarrow> (pstate \<Rightarrow> string option presult) \<Rightarrow>
   pstate \<Rightarrow> expr presult" where
  "parseE5_body parseE6 parseE5p s =
     (if lxin s [''num'', ''id'', ''('', ''|''] then
        pbind (parseE6 s) (\<lambda>expr s1. pbind (parseE5p s1) (\<lambda>r s2.
          if r = None then preturn expr s2 else preturn (Op ''!'' [expr]) s2))
      else perror s)"

definition parseE6_body ::
  "(pstate \<Rightarrow> expr list option presult) \<Rightarrow> (pstate \<Rightarrow> expr presult) \<Rightarrow>
   pstate \<Rightarrow> expr presult" where
  "parseE6_body parseA parseE1 s =
     (let c = fst s in
      if lx_name c = ''num'' then
        pbind (pnext s) (\<lambda>_ s1. preturn (Num (lx_data c)) s1)
      else if lx_name c = ''id'' then
        pbind (pnext s) (\<lambda>_ s1. pbind (parseA s1) (\<lambda>a s2.
          case a of
            None \<Rightarrow> preturn (Ident (lx_data c)) s2
          | Some as \<Rightarrow> preturn (Apply (lx_data c) as) s2))
      else if lx_name c = ''('' then
        pbind (pnext s) (\<lambda>_ s1. pbind (parseE1 s1) (\<lambda>e1 s2.
          if lxin s2 ['')''] then pbind (pnext s2) (\<lambda>_ s3. preturn e1 s3)
          else perror s2))
      else if lx_name c = ''|'' then
        pbind (pnext s) (\<lambda>_ s1. pbind (parseE1 s1) (\<lambda>e1 s2.
          if lxin s2 [''|''] then pbind (pnext s2) (\<lambda>_ s3. preturn (Op ''abs'' [e1]) s3)
          else perror s2))
      else perror s)"

definition parseA_body ::
  "(pstate \<Rightarrow> expr list presult) \<Rightarrow> pstate \<Rightarrow> expr list option presult" where
  "parseA_body parseL s =
     (if lxin s [''(''] then
        pbind (pnext s) (\<lambda>_ s1. pbind (parseL s1) (\<lambda>ll s2.
          if lxin s2 ['')''] then pbind (pnext s2) (\<lambda>_ s3. preturn (Some ll) s3)
          else perror s2))
      else if lxin s [''!'', ''$'', ''^'', ''*'', ''/'', ''//'', ''%'', ''+'', ''-'', '')'', ''|'', '','']
        then preturn None s
      else perror s)"

definition parseL_body ::
  "(pstate \<Rightarrow> expr presult) \<Rightarrow> (pstate \<Rightarrow> expr list option presult) \<Rightarrow>
   pstate \<Rightarrow> expr list presult" where
  "parseL_body parseE1 parseLp s =
     (if lxin s [''num'', ''id'', ''('', ''|'', ''-''] then
        pbind (parseE1 s) (\<lambda>e1 s1. pbind (parseLp s1) (\<lambda>l' s2.
          case l' of
            None \<Rightarrow> preturn [e1] s2
          | Some l \<Rightarrow> preturn ([e1] @ l) s2))
      else perror s)"

definition parseLp_body ::
  "(pstate \<Rightarrow> expr presult) \<Rightarrow> (pstate \<Rightarrow> expr list option presult) \<Rightarrow>
   pstate \<Rightarrow> expr list option presult" where
  "parseLp_body parseE1 parseLp s =
     (if lxin s ['',''] then
        pbind (pnext s) (\<lambda>_ s1. pbind (parseE1 s1) (\<lambda>e1 s2.
          pbind (parseLp s2) (\<lambda>l' s3.
            case l' of
              None \<Rightarrow> preturn (Some [e1]) s3
            | Some l \<Rightarrow> preturn (Some ([e1] @ l)) s3)))
      else if lxin s ['')''] then preturn None s
      else perror s)"

text \<open>
  The twelve methods at one depth bound, and the step from one bound to the
  next: a method at bound \<open>Suc n\<close> calls the methods at bound \<open>n\<close>.
\<close>

datatype parsers = Parsers
  (pE1: "pstate \<Rightarrow> expr presult")
  (pE2: "pstate \<Rightarrow> expr presult")
  (pE3: "pstate \<Rightarrow> expr presult")
  (pE4: "pstate \<Rightarrow> expr presult")
  (pE5: "pstate \<Rightarrow> expr presult")
  (pE6: "pstate \<Rightarrow> expr presult")
  (pA: "pstate \<Rightarrow> expr list option presult")
  (pL: "pstate \<Rightarrow> expr list presult")
  (pLp: "pstate \<Rightarrow> expr list option presult")
  (pE1p: "pstate \<Rightarrow> (string \<times> expr) list presult")
  (pE2p: "pstate \<Rightarrow> (string \<times> expr) list presult")
  (pE4p: "pstate \<Rightarrow> (string \<times> expr) list presult")

primrec parsers_at :: "nat \<Rightarrow> parsers" where
  "parsers_at 0 =
     Parsers (\<lambda>s. None) (\<lambda>s. None) (\<lambda>s. None) (\<lambda>s. None) (\<lambda>s. None) (\<lambda>s. None)
             (\<lambda>s. None) (\<lambda>s. None) (\<lambda>s. None) (\<lambda>s. None) (\<lambda>s. None) (\<lambda>s. None)"
| "parsers_at (Suc n) =
     Parsers
       (parseEx [''num'', ''id'', ''('', ''|'', ''-''] (pE2 (parsers_at n)) (pE1p (parsers_at n)) False)
       (parseEx [''num'', ''id'', ''('', ''|'', ''-''] (pE3 (parsers_at n)) (pE2p (parsers_at n)) False)
       (parseE3_body (pE3 (parsers_at n)) (pE4 (parsers_at n)))
       (parseEx [''num'', ''id'', ''('', ''|''] (pE5 (parsers_at n)) (pE4p (parsers_at n)) True)
       (parseE5_body (pE6 (parsers_at n)) (parseE5' n))
       (parseE6_body (pA (parsers_at n)) (pE1 (parsers_at n)))
       (parseA_body (pL (parsers_at n)))
       (parseL_body (pE1 (parsers_at n)) (pLp (parsers_at n)))
       (parseLp_body (pE1 (parsers_at n)) (pLp (parsers_at n)))
       (parseEx' n [''+'', ''-''] ['')'', ''|'', '','', ''$''] (pE2 (parsers_at n)))
       (parseEx' n [''*'', ''/'', ''//'', ''%''] [''+'', ''-'', ''$'', '')'', ''|'', '','']
          (pE3 (parsers_at n)))
       (parseEx' n [''^''] [''*'', ''/'', ''//'', ''%'', ''$'', ''+'', ''-'', '')'', ''|'', '','']
          (pE5 (parsers_at n)))"

definition parseE1 :: "nat \<Rightarrow> pstate \<Rightarrow> expr presult" where
  "parseE1 n = pE1 (parsers_at n)"

definition parseE2 :: "nat \<Rightarrow> pstate \<Rightarrow> expr presult" where
  "parseE2 n = pE2 (parsers_at n)"

definition parseE3 :: "nat \<Rightarrow> pstate \<Rightarrow> expr presult" where
  "parseE3 n = pE3 (parsers_at n)"

definition parseE4 :: "nat \<Rightarrow> pstate \<Rightarrow> expr presult" where
  "parseE4 n = pE4 (parsers_at n)"

definition parseE5 :: "nat \<Rightarrow> pstate \<Rightarrow> expr presult" where
  "parseE5 n = pE5 (parsers_at n)"

definition parseE6 :: "nat \<Rightarrow> pstate \<Rightarrow> expr presult" where
  "parseE6 n = pE6 (parsers_at n)"

definition parseA :: "nat \<Rightarrow> pstate \<Rightarrow> expr list option presult" where
  "parseA n = pA (parsers_at n)"

definition parseL :: "nat \<Rightarrow> pstate \<Rightarrow> expr list presult" where
  "parseL n = pL (parsers_at n)"

definition parseL' :: "nat \<Rightarrow> pstate \<Rightarrow> expr list option presult" where
  "parseL' n = pLp (parsers_at n)"

definition parseE1' :: "nat \<Rightarrow> pstate \<Rightarrow> (string \<times> expr) list presult" where
  "parseE1' n = pE1p (parsers_at n)"

definition parseE2' :: "nat \<Rightarrow> pstate \<Rightarrow> (string \<times> expr) list presult" where
  "parseE2' n = pE2p (parsers_at n)"

definition parseE4' :: "nat \<Rightarrow> pstate \<Rightarrow> (string \<times> expr) list presult" where
  "parseE4' n = pE4p (parsers_at n)"

lemmas parse_defs =
  parseE1_def parseE2_def parseE3_def parseE4_def parseE5_def parseE6_def
  parseA_def parseL_def parseL'_def parseE1'_def parseE2'_def parseE4'_def

text \<open>
  The methods of \<^verbatim>\<open>Parser2\<close> as the source writes them: these equations are the
  definition unfolded once.
\<close>

lemma parse_0 [simp, code]:
  "parseE1 0 s = None" "parseE2 0 s = None" "parseE3 0 s = None"
  "parseE4 0 s = None" "parseE5 0 s = None" "parseE6 0 s = None"
  "parseA 0 s = None" "parseL 0 s = None" "parseL' 0 s = None"
  "parseE1' 0 s = None" "parseE2' 0 s = None" "parseE4' 0 s = None"
  by (simp_all add: parse_defs)

lemma parseE1_Suc [code]:
  "parseE1 (Suc n) s =
     parseEx [''num'', ''id'', ''('', ''|'', ''-''] (parseE2 n) (parseE1' n) False s"
  by (simp add: parse_defs)

lemma parseE2_Suc [code]:
  "parseE2 (Suc n) s =
     parseEx [''num'', ''id'', ''('', ''|'', ''-''] (parseE3 n) (parseE2' n) False s"
  by (simp add: parse_defs)

lemma parseE3_Suc [code]:
  "parseE3 (Suc n) s = parseE3_body (parseE3 n) (parseE4 n) s"
  by (simp add: parse_defs)

lemma parseE4_Suc [code]:
  "parseE4 (Suc n) s =
     parseEx [''num'', ''id'', ''('', ''|''] (parseE5 n) (parseE4' n) True s"
  by (simp add: parse_defs)

lemma parseE5_Suc [code]:
  "parseE5 (Suc n) s = parseE5_body (parseE6 n) (parseE5' n) s"
  by (simp add: parse_defs)

lemma parseE6_Suc [code]:
  "parseE6 (Suc n) s = parseE6_body (parseA n) (parseE1 n) s"
  by (simp add: parse_defs)

lemma parseA_Suc [code]:
  "parseA (Suc n) s = parseA_body (parseL n) s"
  by (simp add: parse_defs)

lemma parseL_Suc [code]:
  "parseL (Suc n) s = parseL_body (parseE1 n) (parseL' n) s"
  by (simp add: parse_defs)

lemma parseLp_Suc [code]:
  "parseL' (Suc n) s = parseLp_body (parseE1 n) (parseL' n) s"
  by (simp add: parse_defs)

lemma parseE1p_Suc [code]:
  "parseE1' (Suc n) s =
     parseEx' n [''+'', ''-''] ['')'', ''|'', '','', ''$''] (parseE2 n) s"
  by (simp add: parse_defs)

lemma parseE2p_Suc [code]:
  "parseE2' (Suc n) s =
     parseEx' n [''*'', ''/'', ''//'', ''%''] [''+'', ''-'', ''$'', '')'', ''|'', '','']
       (parseE3 n) s"
  by (simp add: parse_defs)

lemma parseE4p_Suc [code]:
  "parseE4' (Suc n) s =
     parseEx' n [''^''] [''*'', ''/'', ''//'', ''%'', ''$'', ''+'', ''-'', '')'', ''|'', '','']
       (parseE5 n) s"
  by (simp add: parse_defs)

definition parseP :: "nat \<Rightarrow> pstate \<Rightarrow> expr presult" where
  "parseP n s =
     (if \<not> lxin s [''num'', ''id'', ''('', ''|'', ''-''] then perror s else parseE1 n s)"

text \<open>
  \<^verbatim>\<open>Parser2(text).parse()\<close>: the first lexeme becomes \<^verbatim>\<open>cur\<close>, and the result of
  \<^verbatim>\<open>parseP\<close> is returned as it is.
\<close>

definition parse :: "nat \<Rightarrow> string \<Rightarrow> (error + expr) option" where
  "parse n text =
     (case lex text of
        Inl x \<Rightarrow> Some (Inl x)
      | Inr [] \<Rightarrow> Some (Inl StopIteration)
      | Inr (t # ts) \<Rightarrow>
          (case parseP n (t, ts) of
             None \<Rightarrow> None
           | Some (Inl x) \<Rightarrow> Some (Inl x)
           | Some (Inr (e, _)) \<Rightarrow> Some (Inr e)))"

text \<open>
  The main program: parse, generate the code, print its \<^verbatim>\<open>names\<close> ("variables
  used") and run it on the dictionary.
\<close>

definition compile :: "nat \<Rightarrow> string \<Rightarrow> (error + code) option" where
  "compile n text = map_option (\<lambda>r. ebind r gen) (parse n text)"

definition compiled_names :: "nat \<Rightarrow> string \<Rightarrow> (error + string list) option" where
  "compiled_names n text = map_option (\<lambda>r. ebind r (\<lambda>c. Inr (names c))) (compile n text)"

definition calc :: "nat \<Rightarrow> string \<Rightarrow> env \<Rightarrow> (error + val) option" where
  "calc n text kw = map_option (\<lambda>r. ebind r (\<lambda>c. run c kw)) (compile n text)"

text \<open>
  The order in which a deeper bound refines a result: a parse that ran out of
  depth may become any result, every other result stays.
\<close>

definition ple :: "'a option \<Rightarrow> 'a option \<Rightarrow> bool" where
  "ple a b = (a = None \<or> a = b)"

text \<open>
  The fixed set of builtins as two tables: the twelve functions of one argument
  (\<^verbatim>\<open>max\<close> and \<^verbatim>\<open>min\<close> are apart), and the seven binary operators.
\<close>

definition unary_builtin :: "string \<Rightarrow> (val \<Rightarrow> error + val) option" where
  "unary_builtin = map_of
     [(''abs'', py_abs), (''ceil'', math_ceil), (''cos'', math_cos),
      (''degrees'', math_degrees), (''floor'', math_floor), (''log'', math_log),
      (''log10'', math_log10), (''log2'', math_log_2), (''radians'', math_radians),
      (''round'', py_round), (''sin'', math_sin), (''tan'', math_tan)]"

definition binary_operator :: "string \<Rightarrow> (val \<Rightarrow> val \<Rightarrow> error + val) option" where
  "binary_operator = map_of
     [(''+'', py_add), (''-'', py_sub), (''*'', py_mul), (''/'', py_div),
      (''%'', py_mod), (''//'', py_floordiv), (''^'', py_pow)]"

text \<open>A result that is not a KeyError.\<close>

definition no_key_error :: "(error + 'a) \<Rightarrow> bool" where
  "no_key_error r = (\<forall>k. r \<noteq> Inl (KeyError k))"


section \<open>What the code generator visits\<close>

text \<open>
  The operands of a node that \<^verbatim>\<open>Code.gen\<close> compiles: both operands of a binary
  operator, the operand of a unary one, every argument of \<^verbatim>\<open>max\<close> and \<^verbatim>\<open>min\<close>, and
  the first argument only of any other application.
\<close>

fun compiled_operands :: "expr \<Rightarrow> expr list" where
  "compiled_operands (Num s) = []"
| "compiled_operands (Ident s) = []"
| "compiled_operands (Apply fn args) =
     (if fn = ''max'' \<or> fn = ''min'' then args else take 1 args)"
| "compiled_operands (Op op args) =
     (if (op = ''-'' \<and> length args = 1) \<or> op = ''!'' \<or> op = ''abs'' then take 1 args
      else take 2 args)"

lemma size_operand: "a \<in> set args \<Longrightarrow> size a < Suc (size_list size args)"
  by (simp add: less_Suc_eq_le size_list_estimation')

text \<open>
  The free names of a tree, as the specification describes them: nothing for a
  number or one of the constants \<^verbatim>\<open>e\<close>, \<^verbatim>\<open>pi\<close>, \<^verbatim>\<open>i\<close>, the name itself for any other
  identifier, and otherwise the lists of the compiled operands, concatenated
  from left to right.
\<close>

function free_names :: "expr \<Rightarrow> string list" where
  "free_names e =
     (case e of
        Num s \<Rightarrow> []
      | Ident s \<Rightarrow> if s = ''e'' \<or> s = ''pi'' \<or> s = ''i'' then [] else [s]
      | _ \<Rightarrow> concat (map free_names (compiled_operands e)))"
  by pat_completeness auto
termination
  by (relation "measure size")
     (auto split: if_splits dest!: in_set_takeD intro: size_operand)

declare free_names.simps [simp del]

lemma free_names_simps [simp]:
  "free_names (Num s) = []"
  "free_names (Ident s) = (if s = ''e'' \<or> s = ''pi'' \<or> s = ''i'' then [] else [s])"
  "free_names (Apply fn args) = concat (map free_names (compiled_operands (Apply fn args)))"
  "free_names (Op op args) = concat (map free_names (compiled_operands (Op op args)))"
  by (simp_all add: free_names.simps)

text \<open>
  The fixed set of builtin names; the first function outside it that is applied
  at a place the generator visits, in the order of the visit; every function
  applied anywhere in a tree; and the shapes of tree that the parser builds
  (a literal that converts, one operand for a unary operator, two for a binary
  one, at least one argument for an application).
\<close>

definition builtins :: "string list" where
  "builtins = [''abs'', ''ceil'', ''cos'', ''degrees'', ''floor'', ''log'', ''log10'',
     ''log2'', ''max'', ''min'', ''radians'', ''round'', ''sin'', ''tan'']"

fun first_some :: "'a option list \<Rightarrow> 'a option" where
  "first_some [] = None"
| "first_some (None # xs) = first_some xs"
| "first_some (Some x # xs) = Some x"

function first_undefined :: "expr \<Rightarrow> string option" where
  "first_undefined e =
     (case e of
        Num s \<Rightarrow> None
      | Ident s \<Rightarrow> None
      | Apply fn args \<Rightarrow>
          if fn \<notin> set builtins then Some fn
          else first_some (map first_undefined (compiled_operands e))
      | Op op args \<Rightarrow> first_some (map first_undefined (compiled_operands e)))"
  by pat_completeness auto
termination
  by (relation "measure size")
     (auto split: if_splits dest!: in_set_takeD intro: size_operand)

declare first_undefined.simps [simp del]

lemma first_undefined_simps [simp]:
  "first_undefined (Num s) = None"
  "first_undefined (Ident s) = None"
  "first_undefined (Apply fn args) =
     (if fn \<notin> set builtins then Some fn
      else first_some (map first_undefined (compiled_operands (Apply fn args))))"
  "first_undefined (Op op args) =
     first_some (map first_undefined (compiled_operands (Op op args)))"
  by (simp_all add: first_undefined.simps)

fun applied_functions :: "expr \<Rightarrow> string list" where
  "applied_functions (Num s) = []"
| "applied_functions (Ident s) = []"
| "applied_functions (Apply fn args) = fn # concat (map applied_functions args)"
| "applied_functions (Op op args) = concat (map applied_functions args)"

fun well_formed :: "expr \<Rightarrow> bool" where
  "well_formed (Num s) = (\<not> isl (if CHR ''.'' \<in> set s then py_float s else py_int s))"
| "well_formed (Ident s) = True"
| "well_formed (Apply fn args) = (args \<noteq> [] \<and> list_all well_formed args)"
| "well_formed (Op op args) =
     ((op \<in> set [''-'', ''!'', ''abs''] \<and> length args = 1 \<or>
       op \<in> set [''+'', ''-'', ''*'', ''/'', ''%'', ''//'', ''^''] \<and> length args = 2) \<and>
      list_all well_formed args)"

text \<open>
  What the parser keeps true: a lexeme of kind \<^verbatim>\<open>num\<close> carries a literal that
  converts; a state holds such lexemes only; a method that returns, returns a
  value with the property \<open>Q\<close> in such a state.  The tail productions return
  operators of their own set with well-formed operands, and the argument lists
  are not empty.
\<close>

definition lexeme_ok :: "lexeme \<Rightarrow> bool" where
  "lexeme_ok lx = (lx_name lx = ''num'' \<longrightarrow> well_formed (Num (lx_data lx)))"

definition state_ok :: "pstate \<Rightarrow> bool" where
  "state_ok s = (lexeme_ok (fst s) \<and> list_all lexeme_ok (snd s))"

definition returns :: "('a \<Rightarrow> bool) \<Rightarrow> 'a presult \<Rightarrow> bool" where
  "returns Q r = (case r of Some (Inr (a, s)) \<Rightarrow> Q a \<and> state_ok s | _ \<Rightarrow> True)"

definition binary_names :: "string list" where
  "binary_names = [''+'', ''-'', ''*'', ''/'', ''%'', ''//'', ''^'']"

definition tail_ok :: "string list \<Rightarrow> (string \<times> expr) list \<Rightarrow> bool" where
  "tail_ok nms lst = list_all (\<lambda>(op, e). op \<in> set nms \<and> well_formed e) lst"

definition args_ok :: "expr list \<Rightarrow> bool" where
  "args_ok l = (l \<noteq> [] \<and> list_all well_formed l)"

definition opt_args_ok :: "expr list option \<Rightarrow> bool" where
  "opt_args_ok a = (case a of None \<Rightarrow> True | Some l \<Rightarrow> args_ok l)"

section \<open>A deeper bound keeps every result\<close>

lemma ple_refl [simp]: "ple a a"
  by (simp add: ple_def)

lemma ple_None [simp]: "ple None b"
  by (simp add: ple_def)

lemma ple_SomeD: "ple a b \<Longrightarrow> a = Some r \<Longrightarrow> b = Some r"
  by (auto simp add: ple_def)

lemma pbind_mono:
  "ple m m' \<Longrightarrow> (\<And>a s. ple (k a s) (k' a s)) \<Longrightarrow> ple (pbind m k) (pbind m' k')"
  by (auto simp add: ple_def pbind_def split: option.splits sum.splits)

lemma parseEx_mono:
  assumes "\<And>s. ple (f1 s) (f1' s)" and "\<And>s. ple (f2 s) (f2' s)"
  shows "ple (parseEx nms f1 f2 r s) (parseEx nms f1' f2' r s)"
  by (simp add: parseEx_def pbind_mono assms)

lemma parseEx'_step_mono:
  assumes "\<And>s. ple (f s) (f' s)" and "\<And>s. ple (g s) (g' s)"
  shows "ple
    (if lxin s nms then
        pbind (pnext s) (\<lambda>_ s1. pbind (f s1) (\<lambda>lhs s2.
          pbind (g s2) (\<lambda>lst s3. preturn ((lx_name (fst s), lhs) # lst) s3)))
      else if lxin s sk then preturn [] s
      else perror s)
    (if lxin s nms then
        pbind (pnext s) (\<lambda>_ s1. pbind (f' s1) (\<lambda>lhs s2.
          pbind (g' s2) (\<lambda>lst s3. preturn ((lx_name (fst s), lhs) # lst) s3)))
      else if lxin s sk then preturn [] s
      else perror s)"
  by (simp add: pbind_mono assms)

lemma parseEx'_mono:
  assumes "\<And>s. ple (f s) (f' s)"
  shows "ple (parseEx' n nms sk f s) (parseEx' (Suc n) nms sk f' s)"
proof (induction n arbitrary: s)
  case 0
  show ?case by simp
next
  case (Suc n)
  show ?case
    using parseEx'_step_mono [of f f' "parseEx' n nms sk f" "parseEx' (Suc n) nms sk f'" s nms sk,
        OF assms Suc]
    by (simp only: parseEx'.simps)
qed

lemma parseE5'_step_mono:
  assumes "\<And>s. ple (g s) (g' s)"
  shows "ple
    (if lxin s [''!''] then
        pbind (pnext s) (\<lambda>_ s1. pbind (g s1) (\<lambda>r s2.
          if r = None then preturn (Some ''!'') s2 else preturn None s2))
      else if lxin s [''^'', ''$'', ''*'', ''/'', ''//'', ''%'', ''+'', ''-'', '')'', ''|'', '','']
        then preturn None s
      else perror s)
    (if lxin s [''!''] then
        pbind (pnext s) (\<lambda>_ s1. pbind (g' s1) (\<lambda>r s2.
          if r = None then preturn (Some ''!'') s2 else preturn None s2))
      else if lxin s [''^'', ''$'', ''*'', ''/'', ''//'', ''%'', ''+'', ''-'', '')'', ''|'', '','']
        then preturn None s
      else perror s)"
  by (simp add: pbind_mono assms)

lemma parseE5'_mono: "ple (parseE5' n s) (parseE5' (Suc n) s)"
proof (induction n arbitrary: s)
  case 0
  show ?case by simp
next
  case (Suc n)
  show ?case
    using parseE5'_step_mono [of "parseE5' n" "parseE5' (Suc n)" s, OF Suc]
    by (simp only: parseE5'.simps)
qed

lemma parseE3_body_mono:
  assumes "\<And>s. ple (f s) (f' s)" and "\<And>s. ple (g s) (g' s)"
  shows "ple (parseE3_body f g s) (parseE3_body f' g' s)"
  by (simp add: parseE3_body_def pbind_mono assms)

lemma parseE5_body_mono:
  assumes "\<And>s. ple (f s) (f' s)" and "\<And>s. ple (g s) (g' s)"
  shows "ple (parseE5_body f g s) (parseE5_body f' g' s)"
  by (simp add: parseE5_body_def pbind_mono assms)

lemma parseE6_body_mono:
  assumes "\<And>s. ple (f s) (f' s)" and "\<And>s. ple (g s) (g' s)"
  shows "ple (parseE6_body f g s) (parseE6_body f' g' s)"
  by (simp add: parseE6_body_def Let_def pbind_mono assms)

lemma parseA_body_mono:
  assumes "\<And>s. ple (f s) (f' s)"
  shows "ple (parseA_body f s) (parseA_body f' s)"
  by (simp add: parseA_body_def pbind_mono assms)

lemma parseL_body_mono:
  assumes "\<And>s. ple (f s) (f' s)" and "\<And>s. ple (g s) (g' s)"
  shows "ple (parseL_body f g s) (parseL_body f' g' s)"
  by (simp add: parseL_body_def pbind_mono assms)

lemma parseLp_body_mono:
  assumes "\<And>s. ple (f s) (f' s)" and "\<And>s. ple (g s) (g' s)"
  shows "ple (parseLp_body f g s) (parseLp_body f' g' s)"
  by (simp add: parseLp_body_def pbind_mono assms)

lemma parsers_mono:
  "(\<forall>s. ple (parseE1 n s) (parseE1 (Suc n) s)) \<and>
   (\<forall>s. ple (parseE2 n s) (parseE2 (Suc n) s)) \<and>
   (\<forall>s. ple (parseE3 n s) (parseE3 (Suc n) s)) \<and>
   (\<forall>s. ple (parseE4 n s) (parseE4 (Suc n) s)) \<and>
   (\<forall>s. ple (parseE5 n s) (parseE5 (Suc n) s)) \<and>
   (\<forall>s. ple (parseE6 n s) (parseE6 (Suc n) s)) \<and>
   (\<forall>s. ple (parseA n s) (parseA (Suc n) s)) \<and>
   (\<forall>s. ple (parseL n s) (parseL (Suc n) s)) \<and>
   (\<forall>s. ple (parseL' n s) (parseL' (Suc n) s)) \<and>
   (\<forall>s. ple (parseE1' n s) (parseE1' (Suc n) s)) \<and>
   (\<forall>s. ple (parseE2' n s) (parseE2' (Suc n) s)) \<and>
   (\<forall>s. ple (parseE4' n s) (parseE4' (Suc n) s))"
proof (induction n)
  case 0
  show ?case by simp
next
  case (Suc n)
  have h1: "ple (parseE1 n s) (parseE1 (Suc n) s)" for s using Suc by blast
  have h2: "ple (parseE2 n s) (parseE2 (Suc n) s)" for s using Suc by blast
  have h3: "ple (parseE3 n s) (parseE3 (Suc n) s)" for s using Suc by blast
  have h4: "ple (parseE4 n s) (parseE4 (Suc n) s)" for s using Suc by blast
  have h5: "ple (parseE5 n s) (parseE5 (Suc n) s)" for s using Suc by blast
  have h6: "ple (parseE6 n s) (parseE6 (Suc n) s)" for s using Suc by blast
  have h7: "ple (parseA n s) (parseA (Suc n) s)" for s using Suc by blast
  have h8: "ple (parseL n s) (parseL (Suc n) s)" for s using Suc by blast
  have h9: "ple (parseL' n s) (parseL' (Suc n) s)" for s using Suc by blast
  have h10: "ple (parseE1' n s) (parseE1' (Suc n) s)" for s using Suc by blast
  have h11: "ple (parseE2' n s) (parseE2' (Suc n) s)" for s using Suc by blast
  have h12: "ple (parseE4' n s) (parseE4' (Suc n) s)" for s using Suc by blast
  have g1: "ple (parseE1 (Suc n) s) (parseE1 (Suc (Suc n)) s)" for s
    by (simp only: parseE1_Suc) (intro parseEx_mono h2 h10)
  have g2: "ple (parseE2 (Suc n) s) (parseE2 (Suc (Suc n)) s)" for s
    by (simp only: parseE2_Suc) (intro parseEx_mono h3 h11)
  have g3: "ple (parseE3 (Suc n) s) (parseE3 (Suc (Suc n)) s)" for s
    by (simp only: parseE3_Suc) (intro parseE3_body_mono h3 h4)
  have g4: "ple (parseE4 (Suc n) s) (parseE4 (Suc (Suc n)) s)" for s
    by (simp only: parseE4_Suc) (intro parseEx_mono h5 h12)
  have g5: "ple (parseE5 (Suc n) s) (parseE5 (Suc (Suc n)) s)" for s
    by (simp only: parseE5_Suc) (intro parseE5_body_mono h6 parseE5'_mono)
  have g6: "ple (parseE6 (Suc n) s) (parseE6 (Suc (Suc n)) s)" for s
    by (simp only: parseE6_Suc) (intro parseE6_body_mono h7 h1)
  have g7: "ple (parseA (Suc n) s) (parseA (Suc (Suc n)) s)" for s
    by (simp only: parseA_Suc) (intro parseA_body_mono h8)
  have g8: "ple (parseL (Suc n) s) (parseL (Suc (Suc n)) s)" for s
    by (simp only: parseL_Suc) (intro parseL_body_mono h1 h9)
  have g9: "ple (parseL' (Suc n) s) (parseL' (Suc (Suc n)) s)" for s
    by (simp only: parseLp_Suc) (intro parseLp_body_mono h1 h9)
  have g10: "ple (parseE1' (Suc n) s) (parseE1' (Suc (Suc n)) s)" for s
    by (simp only: parseE1p_Suc) (intro parseEx'_mono h2)
  have g11: "ple (parseE2' (Suc n) s) (parseE2' (Suc (Suc n)) s)" for s
    by (simp only: parseE2p_Suc) (intro parseEx'_mono h3)
  have g12: "ple (parseE4' (Suc n) s) (parseE4' (Suc (Suc n)) s)" for s
    by (simp only: parseE4p_Suc) (intro parseEx'_mono h5)
  show ?case
    using g1 g2 g3 g4 g5 g6 g7 g8 g9 g10 g11 g12 by blast
qed

lemma parseE1_mono: "parseE1 n s = Some r \<Longrightarrow> parseE1 (n + k) s = Some r"
proof (induction k)
  case 0
  then show ?case by simp
next
  case (Suc k)
  have a: "parseE1 (n + k) s = Some r" by (rule Suc.IH [OF Suc.prems])
  have b: "ple (parseE1 (n + k) s) (parseE1 (Suc (n + k)) s)"
    using parsers_mono [of "n + k"] by blast
  show ?case unfolding add_Suc_right by (rule ple_SomeD [OF b a])
qed

lemma parse_mono: "parse n text = Some r \<Longrightarrow> parse (n + k) text = Some r"
  by (auto simp add: parse_def parseP_def perror_def split: sum.splits list.splits option.splits if_splits
      dest: parseE1_mono [where k = k])

lemma calc_mono: "calc n text kw = Some r \<Longrightarrow> calc (n + k) text kw = Some r"
  by (auto simp add: calc_def compile_def dest: parse_mono [where k = k])


lemma compile_mono: "compile n text = Some r \<Longrightarrow> compile (n + k) text = Some r"
  by (auto simp add: compile_def dest: parse_mono [where k = k])

section \<open>Evaluating the generated code\<close>

lemma ebind_Inl [simp]: "ebind (Inl x) k = Inl x"
  by (simp add: ebind_def)

lemma ebind_Inr [simp]: "ebind (Inr a) k = k a"
  by (simp add: ebind_def)

lemmas eval_defs = ebind_def run_def gen1_def gen2_def genN_def py_int_def py_float_def
  decimal_def digit_val_def isdigit_def coerce_def lookup_def

section \<open>The structure of the generated code\<close>

text \<open>
  \<^verbatim>\<open>Code.gen\<close> read through the two tables, what a successful \<open>gen1\<close>, \<open>gen2\<close> or
  \<open>genN\<close> has built, and an induction rule over every code that \<^verbatim>\<open>Code.gen\<close> can
  return.
\<close>

lemma gen_Apply:
  "gen (Apply fn args) =
     (case unary_builtin fn of
        Some h \<Rightarrow> gen1 gen h args
      | None \<Rightarrow>
          if fn = ''max'' \<or> fn = ''min'' then genN gen py_min args
          else Inl (NotDefined fn))"
  by (simp add: unary_builtin_def)

lemma gen_Op:
  "gen (Op op args) =
     (if op = ''-'' \<and> length args = 1 then gen1 gen py_neg args
      else case binary_operator op of
        Some h \<Rightarrow> gen2 gen h args
      | None \<Rightarrow>
          if op = ''!'' then gen1 gen math_factorial args
          else if op = ''abs'' then gen1 gen py_abs args
          else Inl CantHandle)"
  by (simp add: binary_operator_def)

lemma gen1_Inr:
  "gen1 g h args = Inr c \<Longrightarrow>
   \<exists>a rest lhs. args = a # rest \<and> g a = Inr lhs \<and>
     c = Code (\<lambda>kw. ebind (run lhs kw) h) (names lhs)"
  by (auto simp add: gen1_def ebind_def split: list.splits sum.splits)

lemma gen2_Inr:
  "gen2 g h args = Inr c \<Longrightarrow>
   \<exists>a b rest lhs rhs. args = a # b # rest \<and> g a = Inr lhs \<and> g b = Inr rhs \<and>
     c = Code (\<lambda>kw. ebind (run lhs kw) (\<lambda>x. ebind (run rhs kw) (\<lambda>y. h x y)))
              (names lhs @ names rhs)"
  by (auto simp add: gen2_def ebind_def split: list.splits sum.splits)

lemma sequence_Inr:
  "sequence ms = Inr xs \<Longrightarrow> ms = map Inr xs"
  by (induction ms arbitrary: xs) (auto simp add: ebind_def split: sum.splits)

lemma sequence_map_Inr:
  "sequence (map g as) = Inr cs \<Longrightarrow> length cs = length as \<and> (\<forall>i < length as. g (as ! i) = Inr (cs ! i))"
  by (drule sequence_Inr) (metis length_map nth_map)

lemma genN_Inr:
  "genN g h args = Inr c \<Longrightarrow>
   \<exists>cs. sequence (map g args) = Inr cs \<and>
     c = Code (\<lambda>kw. ebind (sequence (map (\<lambda>a. run a kw) cs)) h) (concat (map names cs))"
  by (auto simp add: genN_def ebind_def split: sum.splits)

lemma coerce_no_key_error:
  "(\<And>x y. no_key_error (fi x y)) \<Longrightarrow> (\<And>x y. no_key_error (fr x y)) \<Longrightarrow>
   (\<And>x y. no_key_error (fc x y)) \<Longrightarrow> no_key_error (coerce fi fr fc a b)"
  by (simp add: coerce_def split: val.splits)

lemma float_pow_no_key_error: "no_key_error (float_pow x y)"
  by (simp add: float_pow_def no_key_error_def)

lemma complex_pow_no_key_error: "no_key_error (complex_pow x y)"
  by (simp add: complex_pow_def no_key_error_def Let_def)

lemma coerce_double_no_key_error:
  assumes "\<And>x y. no_key_error (fi x y)" and "\<And>x y. no_key_error (fr x y)"
    and "\<And>x y. no_key_error (fc x y)"
  shows "no_key_error (coerce_double fi fr fc a b)"
proof -
  have d: "\<exists>x. as_double v = Inr x \<or> as_double v = Inl OverflowError \<or>
      as_double v = Inl TypeError" for v
    by (cases v) (simp_all add: Let_def)
  have c: "\<exists>x. as_complex v = Inr x \<or> as_complex v = Inl OverflowError" for v
    by (cases v) (simp_all add: Let_def)
  have r: "no_key_error (ebind (as_double a) (\<lambda>x. ebind (as_double b) (\<lambda>y. fr x y)))"
    using d [of a] d [of b] assms(2) by (auto simp add: no_key_error_def)
  have z: "no_key_error (ebind (as_complex a) (\<lambda>x. ebind (as_complex b) (\<lambda>y. fc x y)))"
    using c [of a] c [of b] assms(3) by (auto simp add: no_key_error_def)
  show ?thesis
  proof (cases "is_complex a \<or> is_complex b")
    case True
    with z show ?thesis by (simp add: coerce_double_def)
  next
    case False
    with r assms(1) show ?thesis
      by (cases a; cases b) (simp_all add: coerce_double_def)
  qed
qed

lemma c_quot_no_key_error: "no_key_error (ebind (c_quot x y) (\<lambda>q. Inr (g q)))"
  by (simp add: c_quot_def no_key_error_def Let_def)

lemma division_no_key_error:
  "no_key_error (py_div a b)" "no_key_error (py_floordiv a b)" "no_key_error (py_mod a b)"
proof -
  have i: "no_key_error (if y = 0 then Inl ZeroDivisionError else Inr (g x y))"
    for x y :: int and g :: "int \<Rightarrow> int \<Rightarrow> val"
    by (simp add: no_key_error_def)
  have f: "no_key_error (float_div x y)" for x y
    by (simp add: float_div_def no_key_error_def)
  have m: "no_key_error (ebind (float_divmod x y) (\<lambda>(d, m). Inr (VFloat d)))" for x y
    by (simp add: float_divmod_def no_key_error_def Let_def)
  have r: "no_key_error (float_rem x y)" for x y
    by (simp add: float_rem_def no_key_error_def Let_def)
  show "no_key_error (py_div a b)"
    unfolding py_div_def by (intro coerce_double_no_key_error i f c_quot_no_key_error)
  show "no_key_error (py_floordiv a b)"
    unfolding py_floordiv_def complex_floordiv_def
    by (intro coerce_double_no_key_error i m c_quot_no_key_error)
  show "no_key_error (py_mod a b)"
    unfolding py_mod_def complex_rem_def Let_def
    by (intro coerce_double_no_key_error i r c_quot_no_key_error)
qed

lemma binary_no_key_error: "binary_operator op = Some h \<Longrightarrow> no_key_error (h a b)"
  by (auto simp add: binary_operator_def py_add_def py_sub_def py_mul_def
      py_pow_def float_pow_no_key_error complex_pow_no_key_error division_no_key_error
      intro!: coerce_no_key_error split: if_splits) (simp_all add: no_key_error_def)

lemma math_real_no_key_error: "(\<And>x. no_key_error (g x)) \<Longrightarrow> no_key_error (math_real g a)"
  by (simp add: math_real_def no_key_error_def)

lemma py_neg_no_key_error: "no_key_error (py_neg a)"
  by (cases a) (simp_all add: no_key_error_def)

lemma py_abs_no_key_error: "no_key_error (py_abs a)"
  by (cases a) (simp_all add: no_key_error_def)

lemma math_factorial_no_key_error: "no_key_error (math_factorial a)"
  by (cases a) (simp_all add: no_key_error_def)

lemma unary_no_key_error: "unary_builtin fn = Some h \<Longrightarrow> no_key_error (h a)"
  by (auto simp add: unary_builtin_def math_ceil_def math_floor_def math_cos_def math_sin_def
      math_tan_def math_degrees_def math_radians_def math_log_def math_log10_def math_log_2_def
      py_round_def py_abs_no_key_error
      intro!: math_real_no_key_error split: if_splits) (simp_all add: no_key_error_def)

lemma min_loop_no_key_error: "no_key_error (min_loop cur items)"
  by (induction items arbitrary: cur)
     (auto simp add: no_key_error_def ebind_def py_lt_def split: sum.splits)

lemma py_min_no_key_error: "no_key_error (py_min vs)"
  by (cases vs) (simp_all add: min_loop_no_key_error, simp add: no_key_error_def)

lemma gen_code_induct [consumes 1, case_names const var unary binary nary]:
  assumes "gen e = Inr c"
    and const: "\<And>n. P (Code (\<lambda>kw. Inr n) [])"
    and var: "\<And>s. s \<noteq> ''e'' \<Longrightarrow> s \<noteq> ''pi'' \<Longrightarrow> s \<noteq> ''i'' \<Longrightarrow>
      P (Code (\<lambda>kw. lookup s kw) [s])"
    and unary: "\<And>h lhs. (\<And>a. no_key_error (h a)) \<Longrightarrow> P lhs \<Longrightarrow>
      P (Code (\<lambda>kw. ebind (run lhs kw) h) (names lhs))"
    and binary: "\<And>h lhs rhs. (\<And>a b. no_key_error (h a b)) \<Longrightarrow> P lhs \<Longrightarrow> P rhs \<Longrightarrow>
      P (Code (\<lambda>kw. ebind (run lhs kw) (\<lambda>x. ebind (run rhs kw) (\<lambda>y. h x y)))
              (names lhs @ names rhs))"
    and nary: "\<And>cs. (\<And>a. a \<in> set cs \<Longrightarrow> P a) \<Longrightarrow>
      P (Code (\<lambda>kw. ebind (sequence (map (\<lambda>a. run a kw) cs)) py_min) (concat (map names cs)))"
  shows "P c"
  using assms(1)
proof (induction e arbitrary: c)
  case (Num s)
  then show ?case by (auto simp add: ebind_def split: sum.splits intro: const)
next
  case (Ident s)
  then show ?case by (auto split: if_splits intro: const var)
next
  case (Apply fn args)
  show ?case
  proof (cases "unary_builtin fn")
    case (Some h)
    with Apply.prems [unfolded gen_Apply] have "gen1 gen h args = Inr c" by simp
    then obtain a rest lhs where *: "args = a # rest" "gen a = Inr lhs"
      "c = Code (\<lambda>kw. ebind (run lhs kw) h) (names lhs)"
      by (blast dest: gen1_Inr)
    have "P lhs" using Apply.IH [of a lhs] * by simp
    then show ?thesis unfolding *(3) by (intro unary unary_no_key_error [OF Some])
  next
    case None
    with Apply.prems [unfolded gen_Apply] have "genN gen py_min args = Inr c"
      by (simp split: if_splits)
    then obtain cs where *: "sequence (map gen args) = Inr cs"
      "c = Code (\<lambda>kw. ebind (sequence (map (\<lambda>a. run a kw) cs)) py_min) (concat (map names cs))"
      by (blast dest: genN_Inr)
    have "P a" if "a \<in> set cs" for a
    proof -
      from that obtain i where "i < length cs" "a = cs ! i" by (auto simp add: in_set_conv_nth)
      with sequence_map_Inr [OF *(1)] have "gen (args ! i) = Inr a" "args ! i \<in> set args"
        by auto
      then show ?thesis using Apply.IH by blast
    qed
    then show ?thesis unfolding *(2) by (intro nary)
  qed
next
  case (Op op args)
  consider (neg) "op = ''-''" "length args = 1"
    | (bin) h where "\<not> (op = ''-'' \<and> length args = 1)" "binary_operator op = Some h"
    | (un) "\<not> (op = ''-'' \<and> length args = 1)" "binary_operator op = None"
    by (cases "binary_operator op") auto
  then show ?case
  proof cases
    case neg
    with Op.prems [unfolded gen_Op] have "gen1 gen py_neg args = Inr c" by simp
    then obtain a rest lhs where *: "args = a # rest" "gen a = Inr lhs"
      "c = Code (\<lambda>kw. ebind (run lhs kw) py_neg) (names lhs)"
      by (blast dest: gen1_Inr)
    have "P lhs" using Op.IH [of a lhs] * by simp
    then show ?thesis unfolding *(3) by (intro unary py_neg_no_key_error)
  next
    case bin
    with Op.prems [unfolded gen_Op] have "gen2 gen h args = Inr c"
      by (auto split: if_splits)
    then obtain a b rest lhs rhs where *: "args = a # b # rest" "gen a = Inr lhs"
      "gen b = Inr rhs"
      "c = Code (\<lambda>kw. ebind (run lhs kw) (\<lambda>x. ebind (run rhs kw) (\<lambda>y. h x y)))
              (names lhs @ names rhs)"
      by (blast dest: gen2_Inr)
    have "P lhs" "P rhs" using Op.IH [of a lhs] Op.IH [of b rhs] * by simp_all
    then show ?thesis unfolding *(4) by (intro binary binary_no_key_error [OF bin(2)])
  next
    case un
    with Op.prems [unfolded gen_Op]
    obtain h where h: "gen1 gen h args = Inr c" "\<And>a. no_key_error (h a)"
      by (auto simp add: py_abs_no_key_error math_factorial_no_key_error split: if_splits)
    then obtain a rest lhs where *: "args = a # rest" "gen a = Inr lhs"
      "c = Code (\<lambda>kw. ebind (run lhs kw) h) (names lhs)"
      by (blast dest: gen1_Inr)
    have "P lhs" using Op.IH [of a lhs] * by simp
    then show ?thesis unfolding *(3) by (intro unary h(2))
  qed
qed

section \<open>What running the code depends on\<close>

text \<open>
  The result of a run depends on the environment at the names of the code
  only; a name of the code that the environment lacks makes the run fail; and a
  KeyError of a run names a name of the code that the environment lacks.
\<close>

lemma run_Code [simp]: "run (Code f ns) kw = f kw"
  by (simp add: run_def)


lemma sequence_cong_run:
  "(\<And>a. a \<in> set cs \<Longrightarrow> run a kw = run a kw') \<Longrightarrow>
   sequence (map (\<lambda>a. run a kw) cs) = sequence (map (\<lambda>a. run a kw') cs)"
  by (induction cs) simp_all

lemma gen_run_cong:
  assumes "gen e = Inr c" and "\<forall>x \<in> set (names c). kw x = kw' x"
  shows "run c kw = run c kw'"
  using assms
proof (induction rule: gen_code_induct)
  case (const n)
  show ?case by simp
next
  case (var s)
  then have "kw s = kw' s" by simp
  then show ?case by (simp add: lookup_def)
next
  case (unary h lhs)
  from unary(3) have "\<forall>x \<in> set (names lhs). kw x = kw' x" by simp
  with unary(2) have "run lhs kw = run lhs kw'" by blast
  then show ?case by simp
next
  case (binary h lhs rhs)
  from binary(4) have "\<forall>x \<in> set (names lhs). kw x = kw' x"
    and "\<forall>x \<in> set (names rhs). kw x = kw' x" by simp_all
  with binary(2,3) have "run lhs kw = run lhs kw'" "run rhs kw = run rhs kw'" by blast+
  then show ?case by simp
next
  case (nary cs)
  have "run a kw = run a kw'" if "a \<in> set cs" for a
  proof -
    from nary(2) that have "\<forall>x \<in> set (names a). kw x = kw' x" by simp
    with nary(1) [OF that] show ?thesis by blast
  qed
  then have "sequence (map (\<lambda>a. run a kw) cs) = sequence (map (\<lambda>a. run a kw') cs)"
    by (rule sequence_cong_run)
  then show ?case by simp
qed




lemma sequence_Inl:
  "sequence ms = Inl x \<Longrightarrow> Inl x \<in> set ms"
  by (induction ms) (auto simp add: ebind_def split: sum.splits)

lemma ebind_KeyError:
  "ebind m h = Inl (KeyError k) \<Longrightarrow> (\<And>a. no_key_error (h a)) \<Longrightarrow> m = Inl (KeyError k)"
  by (auto simp add: ebind_def no_key_error_def split: sum.splits)

lemma gen_run_KeyError:
  assumes "gen e = Inr c" and "run c kw = Inl (KeyError k)"
  shows "k \<in> set (names c) \<and> kw k = None"
  using assms
proof (induction rule: gen_code_induct)
  case (const n)
  then show ?case by simp
next
  case (var s)
  then show ?case by (auto simp add: lookup_def split: option.splits)
next
  case (unary h lhs)
  then show ?case by (auto dest: ebind_KeyError)
next
  case (binary h lhs rhs)
  from binary(4) have "run lhs kw = Inl (KeyError k) \<or>
      (\<exists>y. run rhs kw = Inl (KeyError k) \<or> (\<exists>x. h x y = Inl (KeyError k)))"
    by (auto simp add: ebind_def split: sum.splits)
  with binary(1) have "run lhs kw = Inl (KeyError k) \<or> run rhs kw = Inl (KeyError k)"
    by (auto simp add: no_key_error_def)
  with binary(2,3) show ?case by auto
next
  case (nary cs)
  from nary(2) have "sequence (map (\<lambda>a. run a kw) cs) = Inl (KeyError k)"
    by (auto dest: ebind_KeyError [OF _ py_min_no_key_error])
  then obtain a where "a \<in> set cs" "run a kw = Inl (KeyError k)"
    by (auto dest!: sequence_Inl)
  with nary(1) show ?case by auto
qed








section \<open>The names of the generated code\<close>

lemma sequence_map_names:
  assumes "sequence (map gen args) = Inr cs"
    and "\<And>a c. a \<in> set args \<Longrightarrow> gen a = Inr c \<Longrightarrow> names c = free_names a"
  shows "map names cs = map free_names args"
  using assms
proof (induction args arbitrary: cs)
  case Nil
  then show ?case by simp
next
  case (Cons a args)
  then show ?case
    by (auto simp add: ebind_def split: sum.splits)
qed

lemma gen_names: "gen e = Inr c \<Longrightarrow> names c = free_names e"
proof (induction e arbitrary: c)
  case (Num s)
  then show ?case by (auto simp add: ebind_def split: sum.splits)
next
  case (Ident s)
  then show ?case by (auto split: if_splits)
next
  case (Apply fn args)
  show ?case
  proof (cases "unary_builtin fn")
    case (Some h)
    then have nm: "fn \<noteq> ''max''" "fn \<noteq> ''min''"
      by (auto simp add: unary_builtin_def)
    from Some Apply.prems [unfolded gen_Apply] have "gen1 gen h args = Inr c" by simp
    then obtain a rest lhs where *: "args = a # rest" "gen a = Inr lhs"
      "c = Code (\<lambda>kw. ebind (run lhs kw) h) (names lhs)"
      by (blast dest: gen1_Inr)
    have "names lhs = free_names a" using Apply.IH [of a lhs] * by simp
    with * nm show ?thesis by simp
  next
    case None
    with Apply.prems [unfolded gen_Apply]
    have mm: "fn = ''max'' \<or> fn = ''min''" and "genN gen py_min args = Inr c"
      by (simp_all split: if_splits)
    then obtain cs where *: "sequence (map gen args) = Inr cs"
      "c = Code (\<lambda>kw. ebind (sequence (map (\<lambda>a. run a kw) cs)) py_min) (concat (map names cs))"
      by (blast dest: genN_Inr)
    have "map names cs = map free_names args"
      using *(1) Apply.IH by (rule sequence_map_names)
    with * mm show ?thesis by auto
  qed
next
  case (Op op args)
  consider (neg) "op = ''-''" "length args = 1"
    | (bin) h where "\<not> (op = ''-'' \<and> length args = 1)" "binary_operator op = Some h"
    | (un) "\<not> (op = ''-'' \<and> length args = 1)" "binary_operator op = None"
    by (cases "binary_operator op") auto
  then show ?case
  proof cases
    case neg
    with Op.prems [unfolded gen_Op] have "gen1 gen py_neg args = Inr c" by simp
    then obtain a rest lhs where *: "args = a # rest" "gen a = Inr lhs"
      "c = Code (\<lambda>kw. ebind (run lhs kw) py_neg) (names lhs)"
      by (blast dest: gen1_Inr)
    have "names lhs = free_names a" using Op.IH [of a lhs] * by simp
    with * neg show ?thesis by simp
  next
    case bin
    then have nu: "op \<noteq> ''!''" "op \<noteq> ''abs''"
      by (auto simp add: binary_operator_def)
    from bin Op.prems [unfolded gen_Op] have "gen2 gen h args = Inr c"
      by (auto split: if_splits)
    then obtain a b rest lhs rhs where *: "args = a # b # rest" "gen a = Inr lhs"
      "gen b = Inr rhs"
      "c = Code (\<lambda>kw. ebind (run lhs kw) (\<lambda>x. ebind (run rhs kw) (\<lambda>y. h x y)))
              (names lhs @ names rhs)"
      by (blast dest: gen2_Inr)
    have "names lhs = free_names a" "names rhs = free_names b"
      using Op.IH [of a lhs] Op.IH [of b rhs] * by simp_all
    with * bin(1) nu show ?thesis by simp
  next
    case un
    with Op.prems [unfolded gen_Op]
    obtain h where h: "gen1 gen h args = Inr c" "op = ''!'' \<or> op = ''abs''"
      by (auto split: if_splits)
    then obtain a rest lhs where *: "args = a # rest" "gen a = Inr lhs"
      "c = Code (\<lambda>kw. ebind (run lhs kw) h) (names lhs)"
      by (blast dest: gen1_Inr)
    have "names lhs = free_names a" using Op.IH [of a lhs] * by simp
    with * h(2) show ?thesis by auto
  qed
qed

section \<open>Functions that are not defined\<close>

lemma unary_builtin_in_builtins: "unary_builtin fn = Some h \<Longrightarrow> fn \<in> set builtins"
  by (auto simp add: unary_builtin_def builtins_def split: if_splits)

lemma not_builtin: "fn \<notin> set builtins \<longleftrightarrow> unary_builtin fn = None \<and> fn \<noteq> ''max'' \<and> fn \<noteq> ''min''"
  by (auto simp add: unary_builtin_def builtins_def)

lemma gen_not_builtin: "fn \<notin> set builtins \<Longrightarrow> gen (Apply fn args) = Inl (NotDefined fn)"
  unfolding gen_Apply by (simp add: not_builtin)

lemma gen1_Inl:
  "gen1 g h args = Inl x \<Longrightarrow> (args = [] \<and> x = IndexError) \<or> (\<exists>a \<in> set args. g a = Inl x)"
  by (auto simp add: gen1_def ebind_def split: list.splits sum.splits)

lemma gen2_Inl:
  "gen2 g h args = Inl x \<Longrightarrow> x = IndexError \<or> (\<exists>a \<in> set args. g a = Inl x)"
  by (auto simp add: gen2_def ebind_def split: list.splits sum.splits)

lemma genN_Inl:
  assumes "genN g h args = Inl x"
  shows "\<exists>a \<in> set args. g a = Inl x"
proof -
  from assms have "sequence (map g args) = Inl x"
    by (auto simp add: genN_def ebind_def split: sum.splits)
  then have "Inl x \<in> set (map g args)" by (rule sequence_Inl)
  then show ?thesis by (metis imageE set_map)
qed

lemma gen_NotDefined:
  "gen e = Inl (NotDefined f) \<Longrightarrow> f \<notin> set builtins \<and> f \<in> set (applied_functions e)"
proof (induction e)
  case (Num s)
  then show ?case
    by (auto simp add: ebind_def py_int_def py_float_def Let_def split: sum.splits if_splits)
next
  case (Ident s)
  then show ?case by (auto split: if_splits)
next
  case (Apply fn args)
  from Apply.prems [unfolded gen_Apply]
  consider (sub) a where "a \<in> set args" "gen a = Inl (NotDefined f)"
    | (here) "fn = f" "unary_builtin fn = None" "fn \<noteq> ''max''" "fn \<noteq> ''min''"
    by (auto split: option.splits if_splits dest!: gen1_Inl genN_Inl)
  then show ?case
  proof cases
    case sub
    with Apply.IH show ?thesis by auto
  next
    case here
    then show ?thesis by (simp add: not_builtin)
  qed
next
  case (Op op args)
  from Op.prems [unfolded gen_Op]
  obtain a where "a \<in> set args" "gen a = Inl (NotDefined f)"
    by (auto split: option.splits if_splits dest!: gen1_Inl gen2_Inl)
  with Op.IH show ?case by auto
qed

lemma sequence_first_undefined:
  assumes "\<And>a. a \<in> set args \<Longrightarrow>
      (case first_undefined a of Some f \<Rightarrow> gen a = Inl (NotDefined f) | None \<Rightarrow> \<not> isl (gen a))"
  shows "case first_some (map first_undefined args) of
      Some f \<Rightarrow> sequence (map gen args) = Inl (NotDefined f)
    | None \<Rightarrow> \<not> isl (sequence (map gen args))"
  using assms
proof (induction args)
  case Nil
  show ?case by simp
next
  case (Cons a args)
  have a: "case first_undefined a of Some f \<Rightarrow> gen a = Inl (NotDefined f) | None \<Rightarrow> \<not> isl (gen a)"
    using Cons.prems by simp
  have r: "case first_some (map first_undefined args) of
      Some f \<Rightarrow> sequence (map gen args) = Inl (NotDefined f)
    | None \<Rightarrow> \<not> isl (sequence (map gen args))"
    using Cons.IH Cons.prems by simp
  show ?case
  proof (cases "first_undefined a")
    case None
    with a obtain c where "gen a = Inr c" by (cases "gen a") auto
    with None r show ?thesis
      by (cases "first_some (map first_undefined args)"; cases "sequence (map gen args)") auto
  next
    case (Some f)
    with a show ?thesis by simp
  qed
qed

lemma gen_first_undefined:
  "well_formed e \<Longrightarrow>
   (case first_undefined e of Some f \<Rightarrow> gen e = Inl (NotDefined f) | None \<Rightarrow> \<not> isl (gen e))"
proof (induction e)
  case (Num s)
  then show ?case by (cases "if CHR ''.'' \<in> set s then py_float s else py_int s") auto
next
  case (Ident s)
  show ?case by simp
next
  case (Apply fn args)
  from Apply.prems obtain a rest where args: "args = a # rest" by (cases args) auto
  have ih: "case first_undefined b of Some f \<Rightarrow> gen b = Inl (NotDefined f) | None \<Rightarrow> \<not> isl (gen b)"
    if "b \<in> set args" for b
    using Apply.IH [OF that] Apply.prems that by (simp add: list_all_iff)
  show ?case
  proof (cases "fn \<in> set builtins")
    case False
    then show ?thesis by (simp add: gen_not_builtin del: gen.simps)
  next
    case True
    show ?thesis
    proof (cases "unary_builtin fn")
      case (Some h)
      then have nm: "fn \<noteq> ''max''" "fn \<noteq> ''min''"
        by (auto simp add: unary_builtin_def)
      have g: "gen (Apply fn args) = gen1 gen h args" unfolding gen_Apply using Some by simp
      from ih [of a] args True nm show ?thesis
        unfolding g
        by (cases "first_undefined a"; cases "gen a") (auto simp add: gen1_def)
    next
      case None
      with True have mm: "fn = ''max'' \<or> fn = ''min''" using not_builtin by blast
      have g: "gen (Apply fn args) = genN gen py_min args"
        unfolding gen_Apply using None mm by auto
      from sequence_first_undefined [of args, OF ih] True mm show ?thesis
        unfolding g
        by (cases "first_some (map first_undefined args)"; cases "sequence (map gen args)")
           (auto simp add: genN_def)
    qed
  qed
next
  case (Op op args)
  have ih: "case first_undefined b of Some f \<Rightarrow> gen b = Inl (NotDefined f) | None \<Rightarrow> \<not> isl (gen b)"
    if "b \<in> set args" for b
    using Op.IH [OF that] Op.prems that by (simp add: list_all_iff)
  from Op.prems consider
      (one) a where "args = [a]" "op = ''-'' \<or> op = ''!'' \<or> op = ''abs''"
    | (two) a b where "args = [a, b]" "op \<in> set [''+'', ''-'', ''*'', ''/'', ''%'', ''//'', ''^'']"
    by (cases args; cases "tl args"; cases "tl (tl args)") auto
  then show ?case
  proof cases
    case one
    then obtain h where g: "gen (Op op args) = gen1 gen h args"
      by auto
    from ih [of a] one show ?thesis
      unfolding g
      by (cases "first_undefined a"; cases "gen a") (auto simp add: gen1_def)
  next
    case two
    then obtain h where g: "gen (Op op args) = gen2 gen h args"
      by auto
    from two have co: "compiled_operands (Op op args) = [a, b]" by auto
    from ih [of a] ih [of b] two show ?thesis
      unfolding g first_undefined_simps co
      by (cases "first_undefined a"; cases "gen a"; cases "first_undefined b"; cases "gen b")
         (auto simp add: gen2_def)
  qed
qed


section \<open>The lexer never fails, and the parser builds well-formed trees\<close>

text \<open>
  The pattern of a number matches at every digit, so \<^verbatim>\<open>lexnum\<close> never raises and
  the list of lexemes is what the generator yields, whenever the parser asks
  for them.  Every text that the pattern matches converts with \<^verbatim>\<open>int\<close> or \<^verbatim>\<open>float\<close>.
  Every tree that \<^verbatim>\<open>parse\<close> returns is well formed.
\<close>

lemma isdigit_not_point: "isdigit c \<Longrightarrow> c \<noteq> CHR ''.''"
  by (auto simp add: isdigit_def)

lemma literal_digits: "ds \<noteq> [] \<Longrightarrow> list_all isdigit ds \<Longrightarrow> well_formed (Num ds)"
  by (auto simp add: py_int_def list_all_iff dest: isdigit_not_point)

lemma literal_point:
  assumes "list_all isdigit ds" and "list_all isdigit fs" and "ds \<noteq> []"
  shows "well_formed (Num (ds @ CHR ''.'' # fs))"
proof -
  have d: "\<forall>c \<in> set ds. c \<noteq> CHR ''.''"
    using assms(1) by (auto simp add: list_all_iff dest: isdigit_not_point)
  then have "takeWhile (\<lambda>c. c \<noteq> CHR ''.'') (ds @ CHR ''.'' # fs) = ds"
    and "dropWhile (\<lambda>c. c \<noteq> CHR ''.'') (ds @ CHR ''.'' # fs) = CHR ''.'' # fs"
    by simp_all
  with assms show ?thesis by (simp add: py_float_def)
qed

lemma num_frac_cases:
  "num_frac r = [] \<or> (\<exists>fs. num_frac r = CHR ''.'' # fs \<and> list_all isdigit fs)"
  by (auto simp add: num_frac_def list_all_iff split: list.splits dest: set_takeWhileD)

lemma isdigit_nonzero: "c \<in> set ''123456789'' \<Longrightarrow> isdigit c"
  by (auto simp add: isdigit_def)

lemma isdigit_zero: "isdigit CHR ''0''"
  by (simp add: isdigit_def)

lemma list_all_takeWhile: "list_all P (takeWhile P xs)"
  by (auto simp add: list_all_iff dest: set_takeWhileD)

lemma num_re_match_shape:
  assumes "num_re_match s = Some m"
  shows "\<exists>c ds r. m = (c # ds) @ num_frac r \<and> isdigit c \<and> list_all isdigit ds"
proof (cases s)
  case Nil
  with assms show ?thesis by (simp add: num_re_match_def)
next
  case (Cons c cs)
  show ?thesis
  proof (cases "c = CHR ''0''")
    case True
    with assms Cons have "m = (c # []) @ num_frac cs" by (simp add: num_re_match_def)
    moreover have "isdigit c" using True by (simp add: isdigit_zero)
    ultimately show ?thesis by (intro exI [of _ c] exI [of _ "[]"] exI [of _ cs]) simp
  next
    case False
    with assms Cons have nz: "c \<in> set ''123456789''"
      and "m = (c # takeWhile isdigit cs) @ num_frac (dropWhile isdigit cs)"
      by (simp_all add: num_re_match_def split: if_splits)
    moreover have "isdigit c" using nz by (rule isdigit_nonzero)
    ultimately show ?thesis using list_all_takeWhile [of isdigit cs] by blast
  qed
qed

lemma num_re_match_ok:
  assumes "num_re_match s = Some m"
  shows "well_formed (Num m)"
proof -
  from num_re_match_shape [OF assms] obtain c ds r
    where m: "m = (c # ds) @ num_frac r" and ds: "list_all isdigit (c # ds)"
    by auto
  from num_frac_cases [of r] show ?thesis
  proof
    assume "num_frac r = []"
    with m ds show ?thesis using literal_digits [of "c # ds"] by simp
  next
    assume "\<exists>fs. num_frac r = CHR ''.'' # fs \<and> list_all isdigit fs"
    then obtain fs where "num_frac r = CHR ''.'' # fs" "list_all isdigit fs"
      by blast
    with m ds literal_point [of "c # ds" fs] show ?thesis by simp
  qed
qed

lemma num_re_match_digit: "isdigit c \<Longrightarrow> num_re_match (c # cs) \<noteq> None"
  by (auto simp add: num_re_match_def isdigit_def)

lemma lexeme_ok_other: "nm \<noteq> ''num'' \<Longrightarrow> lexeme_ok (Lexeme nm i d)"
  by (simp add: lexeme_ok_def)

lemma lex_from_total: "\<not> isl (lex_from i s)"
proof (induction i s rule: lex_from.induct)
  case (1 i)
  show ?case by simp
next
  case (2 i c cs)
  show ?case
  proof (cases "isspace c")
    case True
    with 2 show ?thesis by simp
  next
    case sp: False
    show ?thesis
    proof (cases "isalpha c")
      case True
      obtain lx j r where l: "lexid i (c # cs) = (lx, j, r)" by (cases "lexid i (c # cs)")
      from 2(2) [OF sp True l [symmetric] refl] l sp True show ?thesis
        by (cases "lex_from j r") auto
    next
      case al: False
      show ?thesis
      proof (cases "isdigit c")
        case True
        then obtain m where "num_re_match (c # cs) = Some m"
          using num_re_match_digit [of c cs] by auto
        then obtain lx j r where l: "lexnum i (c # cs) = Inr (lx, j, r)"
          by (simp add: lexnum_def)
        from 2(3) [OF sp al True l refl refl] l sp al True show ?thesis
          by (cases "lex_from j r") auto
      next
        case dg: False
        show ?thesis
        proof (cases "take 2 (c # cs) = ''//''")
          case True
          with 2(4) [OF sp al dg] sp al dg show ?thesis
            by (cases "lex_from (i + 2) (drop 2 (c # cs))") auto
        next
          case False
          with 2(5) [OF sp al dg] sp al dg show ?thesis
            by (cases "lex_from (i + 1) cs") auto
        qed
      qed
    qed
  qed
qed

lemma lex_from_ok: "lex_from i s = Inr ls \<Longrightarrow> list_all lexeme_ok ls"
proof (induction i s arbitrary: ls rule: lex_from.induct)
  case (1 i)
  then show ?case by (auto intro: lexeme_ok_other)
next
  case (2 i c cs)
  show ?case
  proof (cases "isspace c")
    case True
    with 2 show ?thesis by simp
  next
    case sp: False
    show ?thesis
    proof (cases "isalpha c")
      case True
      obtain lx j r where l: "lexid i (c # cs) = (lx, j, r)" by (cases "lexid i (c # cs)")
      then have "lexeme_ok lx" by (auto simp add: lexid_def Let_def intro: lexeme_ok_other)
      with 2(2) [OF sp True l [symmetric] refl] 2(6) l sp True show ?thesis
        by (cases "lex_from j r") auto
    next
      case al: False
      show ?thesis
      proof (cases "isdigit c")
        case True
        with 2(6) sp al obtain lx j r where l: "lexnum i (c # cs) = Inr (lx, j, r)"
          by (cases "lexnum i (c # cs)") auto
        then obtain m where "num_re_match (c # cs) = Some m" "lx = Lexeme ''num'' i m"
          by (auto simp add: lexnum_def split: option.splits)
        then have "lexeme_ok lx"
          using num_re_match_ok [of "c # cs" m] by (simp add: lexeme_ok_def)
        with 2(3) [OF sp al True l refl refl] 2(6) l sp al True show ?thesis
          by (cases "lex_from j r") auto
      next
        case dg: False
        show ?thesis
        proof (cases "take 2 (c # cs) = ''//''")
          case True
          have "lexeme_ok (Lexeme ''//'' i ''//'')" by (rule lexeme_ok_other) simp
          with True 2(4) [OF sp al dg True] 2(6) sp al dg show ?thesis
            by (cases "lex_from (i + 2) (drop 2 (c # cs))") auto
        next
          case False
          have "lexeme_ok (Lexeme [c] i [c])" by (rule lexeme_ok_other) simp
          with False 2(5) [OF sp al dg False] 2(6) sp al dg show ?thesis
            by (cases "lex_from (i + 1) cs") auto
        qed
      qed
    qed
  qed
qed

lemma returns_pbind:
  assumes "returns Q m" and "\<And>a s. Q a \<Longrightarrow> state_ok s \<Longrightarrow> returns R (k a s)"
  shows "returns R (pbind m k)"
proof (cases m)
  case None
  then show ?thesis by (simp add: pbind_def returns_def)
next
  case (Some r)
  show ?thesis
  proof (cases r)
    case (Inl x)
    with Some show ?thesis by (simp add: pbind_def returns_def)
  next
    case (Inr p)
    obtain a s where p: "p = (a, s)" by (cases p)
    with Some Inr assms(1) have "Q a" "state_ok s" by (simp_all add: returns_def)
    then have "returns R (k a s)" by (rule assms(2))
    with Some Inr p show ?thesis by (simp add: pbind_def)
  qed
qed

lemma returns_preturn: "Q a \<Longrightarrow> state_ok s \<Longrightarrow> returns Q (preturn a s)"
  by (simp add: returns_def preturn_def)

lemma returns_perror [simp]: "returns Q (perror s)"
  by (simp add: returns_def perror_def)

lemma returns_None [simp]: "returns Q None"
  by (simp add: returns_def)

lemma returns_pnext: "state_ok s \<Longrightarrow> returns (\<lambda>_. True) (pnext s)"
  by (auto simp add: pnext_def state_ok_def intro!: returns_preturn lexeme_ok_other
      split: list.splits)

lemma well_formed_binary:
  "op \<in> set binary_names \<Longrightarrow> well_formed a \<Longrightarrow> well_formed b \<Longrightarrow> well_formed (Op op [a, b])"
  by (auto simp add: binary_names_def)

lemma fold_left_ok:
  "set nms \<subseteq> set binary_names \<Longrightarrow> well_formed lhs \<Longrightarrow> tail_ok nms lst \<Longrightarrow>
   well_formed (fold_left lhs lst)"
  unfolding fold_left_def tail_ok_def
proof (induction lst arbitrary: lhs)
  case Nil
  then show ?case by simp
next
  case (Cons p lst)
  obtain op e where p: "p = (op, e)" by (cases p)
  with Cons.prems have "well_formed (Op op [lhs, e])"
    by (intro well_formed_binary) auto
  with Cons.IH [of "Op op [lhs, e]"] Cons.prems p show ?case by simp
qed

lemma fold_right_ok:
  "set nms \<subseteq> set binary_names \<Longrightarrow> well_formed lhs \<Longrightarrow> tail_ok nms lst \<Longrightarrow>
   well_formed (fold_right lhs lst)"
  unfolding tail_ok_def
proof (induction lhs lst rule: fold_right.induct)
  case (1 lhs)
  then show ?case by simp
next
  case (2 lhs op e lst)
  then have "well_formed (fold_right e lst)" by simp
  with 2 show ?case
    unfolding fold_right.simps by (intro well_formed_binary) auto
qed

lemma parseEx_ok:
  assumes "\<And>s. state_ok s \<Longrightarrow> returns well_formed (f1 s)"
    and "\<And>s. state_ok s \<Longrightarrow> returns (tail_ok ops) (f2 s)"
    and "set ops \<subseteq> set binary_names" and "state_ok s"
  shows "returns well_formed (parseEx nms f1 f2 right s)"
  unfolding parseEx_def
  by (auto intro!: returns_pbind [OF assms(1)] returns_pbind [OF assms(2)] returns_preturn
      fold_left_ok [OF assms(3)] fold_right_ok [OF assms(3)] assms(4))

lemma parseEx'_ok:
  assumes "\<And>s. state_ok s \<Longrightarrow> returns well_formed (f1 s)"
  shows "state_ok s \<Longrightarrow> returns (tail_ok nms) (parseEx' n nms skips f1 s)"
proof (induction n arbitrary: s)
  case 0
  show ?case by simp
next
  case (Suc n)
  show ?case
    unfolding parseEx'.simps
    by (auto intro!: returns_pbind [OF returns_pnext] returns_pbind [OF assms]
        returns_pbind [OF Suc.IH] returns_preturn Suc.prems
        simp add: tail_ok_def lxin_def)
qed

lemma parseE5'_ok: "state_ok s \<Longrightarrow> returns (\<lambda>_. True) (parseE5' n s)"
proof (induction n arbitrary: s)
  case 0
  show ?case by simp
next
  case (Suc n)
  show ?case
    unfolding parseE5'.simps
    by (auto intro!: returns_pbind [OF returns_pnext] returns_pbind [OF Suc.IH]
        returns_preturn Suc.prems)
qed

lemma parseE3_body_ok:
  assumes "\<And>s. state_ok s \<Longrightarrow> returns well_formed (p3 s)"
    and "\<And>s. state_ok s \<Longrightarrow> returns well_formed (p4 s)" and "state_ok s"
  shows "returns well_formed (parseE3_body p3 p4 s)"
  unfolding parseE3_body_def
  by (auto intro!: returns_pbind [OF returns_pnext] returns_pbind [OF assms(1)]
      returns_preturn assms)

lemma parseE5_body_ok:
  assumes "\<And>s. state_ok s \<Longrightarrow> returns well_formed (p6 s)"
    and "\<And>s. state_ok s \<Longrightarrow> returns (\<lambda>_. True) (p5 s)" and "state_ok s"
  shows "returns well_formed (parseE5_body p6 p5 s)"
  unfolding parseE5_body_def
  by (auto intro!: returns_pbind [OF assms(1)] returns_pbind [OF assms(2)]
      returns_preturn assms(3))

lemma parseE6_body_ok:
  assumes "\<And>s. state_ok s \<Longrightarrow> returns opt_args_ok (pa s)"
    and "\<And>s. state_ok s \<Longrightarrow> returns well_formed (p1 s)" and "state_ok s"
  shows "returns well_formed (parseE6_body pa p1 s)"
proof -
  have num: "lx_name (fst s) = ''num'' \<Longrightarrow> well_formed (Num (lx_data (fst s)))"
    using assms(3) by (simp add: state_ok_def lexeme_ok_def)
  show ?thesis
    unfolding parseE6_body_def Let_def
    by (auto intro!: returns_pbind [OF returns_pnext] returns_pbind [OF assms(1)]
        returns_pbind [OF assms(2)] returns_preturn assms(3) num
        simp add: opt_args_ok_def args_ok_def split: option.splits
        simp del: well_formed.simps(1))
qed

lemma parseA_body_ok:
  assumes "\<And>s. state_ok s \<Longrightarrow> returns args_ok (pl s)" and "state_ok s"
  shows "returns opt_args_ok (parseA_body pl s)"
  unfolding parseA_body_def
  by (auto intro!: returns_pbind [OF returns_pnext] returns_pbind [OF assms(1)]
      returns_preturn assms(2) simp add: opt_args_ok_def)

lemma parseL_body_ok:
  assumes "\<And>s. state_ok s \<Longrightarrow> returns well_formed (p1 s)"
    and "\<And>s. state_ok s \<Longrightarrow> returns opt_args_ok (pl s)" and "state_ok s"
  shows "returns args_ok (parseL_body p1 pl s)"
  unfolding parseL_body_def
  by (auto intro!: returns_pbind [OF assms(1)] returns_pbind [OF assms(2)]
      returns_preturn assms(3) simp add: opt_args_ok_def args_ok_def split: option.splits)

lemma parseLp_body_ok:
  assumes "\<And>s. state_ok s \<Longrightarrow> returns well_formed (p1 s)"
    and "\<And>s. state_ok s \<Longrightarrow> returns opt_args_ok (pl s)" and "state_ok s"
  shows "returns opt_args_ok (parseLp_body p1 pl s)"
  unfolding parseLp_body_def
  by (auto intro!: returns_pbind [OF returns_pnext] returns_pbind [OF assms(1)]
      returns_pbind [OF assms(2)]
      returns_preturn assms(3) simp add: opt_args_ok_def args_ok_def split: option.splits)

lemma subset_binary:
  "set [''+'', ''-''] \<subseteq> set binary_names"
  "set [''*'', ''/'', ''//'', ''%''] \<subseteq> set binary_names"
  "set [''^''] \<subseteq> set binary_names"
  by (simp_all add: binary_names_def)

lemma parsers_ok:
  "(\<forall>s. state_ok s \<longrightarrow> returns well_formed (parseE1 n s)) \<and>
   (\<forall>s. state_ok s \<longrightarrow> returns well_formed (parseE2 n s)) \<and>
   (\<forall>s. state_ok s \<longrightarrow> returns well_formed (parseE3 n s)) \<and>
   (\<forall>s. state_ok s \<longrightarrow> returns well_formed (parseE4 n s)) \<and>
   (\<forall>s. state_ok s \<longrightarrow> returns well_formed (parseE5 n s)) \<and>
   (\<forall>s. state_ok s \<longrightarrow> returns well_formed (parseE6 n s)) \<and>
   (\<forall>s. state_ok s \<longrightarrow> returns opt_args_ok (parseA n s)) \<and>
   (\<forall>s. state_ok s \<longrightarrow> returns args_ok (parseL n s)) \<and>
   (\<forall>s. state_ok s \<longrightarrow> returns opt_args_ok (parseL' n s)) \<and>
   (\<forall>s. state_ok s \<longrightarrow> returns (tail_ok [''+'', ''-'']) (parseE1' n s)) \<and>
   (\<forall>s. state_ok s \<longrightarrow> returns (tail_ok [''*'', ''/'', ''//'', ''%'']) (parseE2' n s)) \<and>
   (\<forall>s. state_ok s \<longrightarrow> returns (tail_ok [''^'']) (parseE4' n s))"
proof (induction n)
  case 0
  show ?case by simp
next
  case (Suc n)
  have h1: "returns well_formed (parseE1 n s)" if "state_ok s" for s using Suc that by blast
  have h2: "returns well_formed (parseE2 n s)" if "state_ok s" for s using Suc that by blast
  have h3: "returns well_formed (parseE3 n s)" if "state_ok s" for s using Suc that by blast
  have h4: "returns well_formed (parseE4 n s)" if "state_ok s" for s using Suc that by blast
  have h5: "returns well_formed (parseE5 n s)" if "state_ok s" for s using Suc that by blast
  have h6: "returns well_formed (parseE6 n s)" if "state_ok s" for s using Suc that by blast
  have h7: "returns opt_args_ok (parseA n s)" if "state_ok s" for s using Suc that by blast
  have h8: "returns args_ok (parseL n s)" if "state_ok s" for s using Suc that by blast
  have h9: "returns opt_args_ok (parseL' n s)" if "state_ok s" for s using Suc that by blast
  have h10: "returns (tail_ok [''+'', ''-'']) (parseE1' n s)" if "state_ok s" for s
    using Suc that by blast
  have h11: "returns (tail_ok [''*'', ''/'', ''//'', ''%'']) (parseE2' n s)" if "state_ok s" for s
    using Suc that by blast
  have h12: "returns (tail_ok [''^'']) (parseE4' n s)" if "state_ok s" for s
    using Suc that by blast
  have g1: "returns well_formed (parseE1 (Suc n) s)" if "state_ok s" for s
    unfolding parseE1_Suc using h2 h10 subset_binary(1) that by (rule parseEx_ok)
  have g2: "returns well_formed (parseE2 (Suc n) s)" if "state_ok s" for s
    unfolding parseE2_Suc using h3 h11 subset_binary(2) that by (rule parseEx_ok)
  have g3: "returns well_formed (parseE3 (Suc n) s)" if "state_ok s" for s
    unfolding parseE3_Suc using h3 h4 that by (rule parseE3_body_ok)
  have g4: "returns well_formed (parseE4 (Suc n) s)" if "state_ok s" for s
    unfolding parseE4_Suc using h5 h12 subset_binary(3) that by (rule parseEx_ok)
  have g5: "returns well_formed (parseE5 (Suc n) s)" if "state_ok s" for s
    unfolding parseE5_Suc using h6 parseE5'_ok that by (rule parseE5_body_ok)
  have g6: "returns well_formed (parseE6 (Suc n) s)" if "state_ok s" for s
    unfolding parseE6_Suc using h7 h1 that by (rule parseE6_body_ok)
  have g7: "returns opt_args_ok (parseA (Suc n) s)" if "state_ok s" for s
    unfolding parseA_Suc using h8 that by (rule parseA_body_ok)
  have g8: "returns args_ok (parseL (Suc n) s)" if "state_ok s" for s
    unfolding parseL_Suc using h1 h9 that by (rule parseL_body_ok)
  have g9: "returns opt_args_ok (parseL' (Suc n) s)" if "state_ok s" for s
    unfolding parseLp_Suc using h1 h9 that by (rule parseLp_body_ok)
  have g10: "returns (tail_ok [''+'', ''-'']) (parseE1' (Suc n) s)" if "state_ok s" for s
    unfolding parseE1p_Suc using h2 that by (rule parseEx'_ok)
  have g11: "returns (tail_ok [''*'', ''/'', ''//'', ''%'']) (parseE2' (Suc n) s)"
    if "state_ok s" for s
    unfolding parseE2p_Suc using h3 that by (rule parseEx'_ok)
  have g12: "returns (tail_ok [''^'']) (parseE4' (Suc n) s)" if "state_ok s" for s
    unfolding parseE4p_Suc using h5 that by (rule parseEx'_ok)
  show ?case
    using g1 g2 g3 g4 g5 g6 g7 g8 g9 g10 g11 g12 by blast
qed

lemma parse_well_formed:
  assumes "parse n text = Some (Inr e)"
  shows "well_formed e"
proof -
  from assms obtain t ts where l: "lex text = Inr (t # ts)"
    by (auto simp add: parse_def split: sum.splits list.splits)
  then have "list_all lexeme_ok (t # ts)" unfolding lex_def by (rule lex_from_ok)
  then have ok: "state_ok (t, ts)" by (simp add: state_ok_def)
  with parsers_ok [of n] have "returns well_formed (parseE1 n (t, ts))" by blast
  then have "returns well_formed (parseP n (t, ts))" by (simp add: parseP_def)
  with assms l show ?thesis
    by (auto simp add: parse_def returns_def split: option.splits sum.splits)
qed

section \<open>The builtin \<^verbatim>\<open>max\<close>\<close>

lemma parse_max_1_2:
  "parse 20 ''max(1,2)'' = Some (Inr (Apply ''max'' [Num ''1'', Num ''2'']))"
  by code_simp

lemma calc_max_1_2: "calc 20 ''max(1,2)'' kw = Some (Inr (VInt 1))"
  by (simp add: calc_def compile_def parse_max_1_2 eval_defs py_lt_def)

text \<open>
  C1.  The claim is that \<^verbatim>\<open>max\<close> of two or more arguments evaluates to the maximum
  of the evaluated arguments.  The code does not do that: the branch of \<^verbatim>\<open>max\<close> in
  \<^verbatim>\<open>Code.gen\<close> builds the same code as the branch of \<^verbatim>\<open>min\<close>, and \<^verbatim>\<open>max(1,2)\<close> evaluates
  to 1 at every depth bound from 20 on and in every environment.
\<close>

theorem max_evaluates_to_minimum:
  "gen (Apply ''max'' args) = gen (Apply ''min'' args) \<and>
   calc (20 + k) ''max(1,2)'' kw = Some (Inr (VInt 1))"
  using calc_mono [OF calc_max_1_2 [of kw], where k = k] by simp

section \<open>Stacked factorials\<close>

lemma parse_3_bang_bang: "parse 20 ''3!!'' = Some (Inr (Num ''3''))"
  by code_simp

lemma calc_3_bang_bang: "calc 20 ''3!!'' kw = Some (Inr (VInt 3))"
  by (simp add: calc_def compile_def parse_3_bang_bang eval_defs)

text \<open>
  C3.  The claim is that \<^verbatim>\<open>3!!\<close> parses as \<^verbatim>\<open>(3!)!\<close> and evaluates to 720.  The code
  accepts the input but drops both factorials: \<^verbatim>\<open>parseE5_\<close> answers \<^verbatim>\<open>'!'\<close> for an odd
  number of \<^verbatim>\<open>!\<close> and \<^verbatim>\<open>None\<close> for an even one, and \<^verbatim>\<open>parseE5\<close> wraps at most one
  factorial.  So \<^verbatim>\<open>3!!\<close> parses as the number 3 and evaluates to 3.
\<close>

theorem factorial_stacking_lost:
  "parse (20 + k) ''3!!'' = Some (Inr (Num ''3'')) \<and>
   calc (20 + k) ''3!!'' kw = Some (Inr (VInt 3))"
  using parse_mono [OF parse_3_bang_bang, where k = k] calc_mono [OF calc_3_bang_bang [of kw], where k = k]
  by simp

section \<open>Trailing lexemes\<close>

lemma parse_2_paren: "parse 20 ''2)'' = Some (Inr (Num ''2''))"
  by code_simp

text \<open>
  C4.  The claim is that a successful parse has consumed the whole input, so
  that \<^verbatim>\<open>2)\<close> is rejected.  The code returns the tree of the prefix \<^verbatim>\<open>2\<close>: \<^verbatim>\<open>parse\<close>
  returns what \<^verbatim>\<open>parseP\<close> returns and never looks whether the current lexeme is
  the end marker.
\<close>

theorem trailing_paren_accepted: "parse (20 + k) ''2)'' = Some (Inr (Num ''2''))"
  using parse_mono [OF parse_2_paren, where k = k] by simp

section \<open>Unary minus and powers\<close>






section \<open>Division\<close>














section \<open>Functions outside the builtin set\<close>

lemma parse_bogus_1: "parse 20 ''bogus(1)'' = Some (Inr (Apply ''bogus'' [Num ''1'']))"
  by code_simp

lemma compile_bogus_1: "compile 20 ''bogus(1)'' = Some (Inl (NotDefined ''bogus''))"
  by (simp add: compile_def parse_bogus_1)

lemma parse_sin_1_bogus:
  "parse 30 ''sin(1, bogus(2))'' =
     Some (Inr (Apply ''sin'' [Num ''1'', Apply ''bogus'' [Num ''2'']]))"
  by code_simp

lemma parse_1_plus_bogus:
  "parse 20 ''1+bogus(2)'' = Some (Inr (Op ''+'' [Num ''1'', Apply ''bogus'' [Num ''2'']]))"
  by code_simp

text \<open>
  C5, as the claim states it: compiling a tree that contains an application of
  a function outside the builtin set fails.  It does not for
  \<^verbatim>\<open>sin(1, bogus(2))\<close>: the second argument of \<^verbatim>\<open>sin\<close> is never compiled, so the
  text compiles, and evaluates to the sine of 1.
\<close>

theorem undefined_function_in_ignored_argument:
  "calc 30 ''sin(1, bogus(2))'' Map.empty = Some (Inr (VFloat (sin 1)))"
  by (simp add: calc_def compile_def parse_sin_1_bogus gen1_def py_int_def decimal_def
      digit_val_def isdigit_def math_sin_def math_real_def)

text \<open>
  C5, amended: compiling an application of a function outside the builtin set
  fails with the error that names the function, whatever its arguments; for a
  well-formed tree, as every tree that the parser returns is, compilation fails
  with that error,
  naming the first such function in the order of the visit, exactly when such an
  application stands at a place the generator visits (an operand of an
  operator, the first argument of a builtin of one argument, an argument of
  \<^verbatim>\<open>max\<close> or \<^verbatim>\<open>min\<close>), and succeeds otherwise; the error only ever names a function
  that is applied in the tree and is not a builtin.  No environment takes part:
  \<^verbatim>\<open>bogus(1)\<close> fails when it is compiled.
\<close>

theorem undefined_function_at_compile_time:
  "(fn \<notin> set builtins \<longrightarrow> gen (Apply fn args) = Inl (NotDefined fn)) \<and>
   (well_formed e \<longrightarrow>
      (case first_undefined e of
         Some f \<Rightarrow> gen e = Inl (NotDefined f)
       | None \<Rightarrow> \<not> isl (gen e))) \<and>
   (gen e = Inl (NotDefined f) \<longrightarrow> f \<notin> set builtins \<and> f \<in> set (applied_functions e)) \<and>
   (parse n text = Some (Inr e) \<longrightarrow> well_formed e) \<and>
   compile (20 + k) ''bogus(1)'' = Some (Inl (NotDefined ''bogus''))"
  using gen_not_builtin [of fn args] gen_first_undefined [of e] gen_NotDefined [of e f]
    parse_well_formed [of n "text" e] compile_mono [OF compile_bogus_1, where k = k]
  by blast

theorem undefined_function_at_compile_time_witness:
  "''bogus'' \<notin> set builtins \<and>
   gen (Apply ''bogus'' [Num ''1'']) = Inl (NotDefined ''bogus'') \<and>
   well_formed (Op ''+'' [Num ''1'', Apply ''bogus'' [Num ''2'']]) \<and>
   first_undefined (Op ''+'' [Num ''1'', Apply ''bogus'' [Num ''2'']]) = Some ''bogus'' \<and>
   gen (Op ''+'' [Num ''1'', Apply ''bogus'' [Num ''2'']]) = Inl (NotDefined ''bogus'') \<and>
   ''bogus'' \<in> set (applied_functions (Op ''+'' [Num ''1'', Apply ''bogus'' [Num ''2'']])) \<and>
   parse 20 ''1+bogus(2)'' = Some (Inr (Op ''+'' [Num ''1'', Apply ''bogus'' [Num ''2'']]))"
proof -
  let ?e = "Op ''+'' [Num ''1'', Apply ''bogus'' [Num ''2'']]"
  have b: "''bogus'' \<notin> set builtins" by (simp add: builtins_def)
  have p: "parse 20 ''1+bogus(2)'' = Some (Inr ?e)" by (rule parse_1_plus_bogus)
  have u: "first_undefined ?e = Some ''bogus''" by (simp add: builtins_def)
  from undefined_function_at_compile_time
    [of "''bogus''" "[Num ''1'']" ?e "''bogus''" 20 "''1+bogus(2)''" 0] b p u
  show ?thesis by simp
qed

section \<open>Builtins of one argument\<close>

lemma parse_sin_1_2:
  "parse 20 ''sin(1,2)'' = Some (Inr (Apply ''sin'' [Num ''1'', Num ''2'']))"
  by code_simp

text \<open>
  C6, as the claim states it: a builtin of one argument applied to two or more
  arguments is rejected.  It is not: \<^verbatim>\<open>sin(1,2)\<close> compiles and evaluates to the sine
  of 1.
\<close>

theorem extra_argument_compiled:
  "calc 20 ''sin(1,2)'' Map.empty = Some (Inr (VFloat (sin 1)))"
  by (simp add: calc_def compile_def parse_sin_1_2 gen1_def py_int_def decimal_def
      digit_val_def isdigit_def math_sin_def math_real_def)

text \<open>
  C6, amended: a builtin other than \<^verbatim>\<open>max\<close> and \<^verbatim>\<open>min\<close>, applied to one or more
  arguments, compiles its first argument only, and the code computes that
  function of the evaluated first argument; the further arguments are ignored
  (neither compiled nor evaluated), whatever they are.
\<close>

theorem unary_builtin_first_argument:
  assumes "unary_builtin fn = Some h"
  shows "gen (Apply fn (a # rest)) =
    ebind (gen a) (\<lambda>lhs. Inr (Code (\<lambda>kw. ebind (run lhs kw) h) (names lhs)))"
  unfolding gen_Apply using assms by (simp add: gen1_def)

theorem unary_builtin_first_argument_witness:
  "unary_builtin ''sin'' = Some math_sin \<and>
   gen (Apply ''sin'' [Num ''1'', Num ''2'']) = Inr (Code (\<lambda>kw. math_sin (VInt 1)) [])"
proof -
  have u: "unary_builtin ''sin'' = Some math_sin" by (simp add: unary_builtin_def)
  from unary_builtin_first_argument [OF u, of "Num ''1''" "[Num ''2'']"] u
  show ?thesis by (simp add: py_int_def decimal_def digit_val_def isdigit_def)
qed

section \<open>Variables that the environment lacks\<close>







section \<open>The list of names\<close>

lemma parse_sin_x_y:
  "parse 20 ''sin(x,y)'' = Some (Inr (Apply ''sin'' [Ident ''x'', Ident ''y'']))"
  by code_simp

text \<open>
  C9, as the claim states it: for every tree the name list is the concatenation
  of the lists of the children.  It is not for \<^verbatim>\<open>sin(x,y)\<close>: the list is \<^verbatim>\<open>['x']\<close>,
  without \<^verbatim>\<open>y\<close>.
\<close>

theorem names_skip_ignored_arguments:
  "compiled_names 20 ''sin(x,y)'' = Some (Inr [''x''])"
  by (simp add: compiled_names_def compile_def parse_sin_x_y gen1_def)

text \<open>
  C9, amended: the name list of the code of a tree is the concatenation, from
  left to right and with duplicates kept, of the lists of the operands that are
  compiled (every operand of an operator, every argument of \<^verbatim>\<open>max\<close> and \<^verbatim>\<open>min\<close>, the
  first argument only of any other builtin); a number and the constants \<^verbatim>\<open>e\<close>,
  \<^verbatim>\<open>pi\<close>, \<^verbatim>\<open>i\<close> contribute no name, any other identifier its own name.
\<close>

theorem names_are_free_names:
  assumes "gen e = Inr c"
  shows "names c = free_names e"
  using assms by (rule gen_names)

theorem names_are_free_names_witness:
  "gen (Op ''+'' [Ident ''x'', Op ''*'' [Ident ''y'', Ident ''x'']]) =
     Inr (Code (\<lambda>kw. ebind (lookup ''x'' kw) (\<lambda>x.
            ebind (ebind (lookup ''y'' kw) (\<lambda>x. ebind (lookup ''x'' kw) (\<lambda>y. py_mul x y)))
              (\<lambda>y. py_add x y)))
          [''x'', ''y'', ''x'']) \<and>
   free_names (Op ''+'' [Ident ''x'', Op ''*'' [Ident ''y'', Ident ''x'']]) = [''x'', ''y'', ''x'']"
proof -
  let ?c = "Code (\<lambda>kw. ebind (lookup ''x'' kw) (\<lambda>x.
            ebind (ebind (lookup ''y'' kw) (\<lambda>x. ebind (lookup ''x'' kw) (\<lambda>y. py_mul x y)))
              (\<lambda>y. py_add x y)))
          [''x'', ''y'', ''x'']"
  have g: "gen (Op ''+'' [Ident ''x'', Op ''*'' [Ident ''y'', Ident ''x'']]) = Inr ?c"
    by (simp add: gen2_def)
  from names_are_free_names [OF g] g show ?thesis by simp
qed

section \<open>The constants\<close>

lemma gen_names_no_constant:
  assumes "gen e = Inr c" and "x = ''e'' \<or> x = ''pi'' \<or> x = ''i''"
  shows "x \<notin> set (names c)"
  using assms by (induction rule: gen_code_induct) auto

text \<open>
  C10.  The identifiers \<^verbatim>\<open>e\<close>, \<^verbatim>\<open>pi\<close> and \<^verbatim>\<open>i\<close> compile to the constants, with an
  empty name list; no code that \<^verbatim>\<open>Code.gen\<close> returns has one of them in its name
  list; and binding one of them in the environment changes no result.
\<close>

theorem constants_ignore_environment:
  "gen (Ident ''e'') = Inr (Code (\<lambda>kw. Inr (VFloat (exp 1))) []) \<and>
   gen (Ident ''pi'') = Inr (Code (\<lambda>kw. Inr (VFloat pi)) []) \<and>
   gen (Ident ''i'') = Inr (Code (\<lambda>kw. Inr (VComplex \<i>)) []) \<and>
   (gen e = Inr c \<longrightarrow> x = ''e'' \<or> x = ''pi'' \<or> x = ''i'' \<longrightarrow>
      x \<notin> set (names c) \<and> run c (kw(x \<mapsto> v)) = run c kw)"
proof -
  have "x \<notin> set (names c) \<and> run c (kw(x \<mapsto> v)) = run c kw"
    if g: "gen e = Inr c" and x: "x = ''e'' \<or> x = ''pi'' \<or> x = ''i''"
  proof -
    have n: "x \<notin> set (names c)" using g x by (rule gen_names_no_constant)
    then have "\<forall>y \<in> set (names c). (kw(x \<mapsto> v)) y = kw y" by auto
    with g have "run c (kw(x \<mapsto> v)) = run c kw" by (rule gen_run_cong)
    with n show ?thesis by simp
  qed
  then show ?thesis by simp
qed

theorem constants_ignore_environment_witness:
  "gen (Op ''+'' [Ident ''e'', Ident ''x'']) =
     Inr (Code (\<lambda>kw. ebind (lookup ''x'' kw) (\<lambda>y. py_add (VFloat (exp 1)) y)) [''x'']) \<and>
   ''e'' \<notin> set (names
     (Code (\<lambda>kw. ebind (lookup ''x'' kw) (\<lambda>y. py_add (VFloat (exp 1)) y)) [''x''])) \<and>
   run (Code (\<lambda>kw. ebind (lookup ''x'' kw) (\<lambda>y. py_add (VFloat (exp 1)) y)) [''x''])
     [''x'' \<mapsto> VInt 1, ''e'' \<mapsto> VInt 7] =
   run (Code (\<lambda>kw. ebind (lookup ''x'' kw) (\<lambda>y. py_add (VFloat (exp 1)) y)) [''x''])
     [''x'' \<mapsto> VInt 1] \<and>
   run (Code (\<lambda>kw. ebind (lookup ''x'' kw) (\<lambda>y. py_add (VFloat (exp 1)) y)) [''x''])
     [''x'' \<mapsto> VInt 1, ''e'' \<mapsto> VInt 7] = Inr (VFloat (exp 1 + 1))"
proof -
  let ?c = "Code (\<lambda>kw. ebind (lookup ''x'' kw) (\<lambda>y. py_add (VFloat (exp 1)) y)) [''x'']"
  have g: "gen (Op ''+'' [Ident ''e'', Ident ''x'']) = Inr ?c"
    by (simp add: gen2_def)
  have r: "run ?c [''x'' \<mapsto> VInt 1, ''e'' \<mapsto> VInt 7] = Inr (VFloat (exp 1 + 1))"
    by (simp add: lookup_def py_add_def coerce_def)
  from constants_ignore_environment [of "Op ''+'' [Ident ''e'', Ident ''x'']" ?c "''e''"
      "[''x'' \<mapsto> VInt 1]" "VInt 7"] g r
  show ?thesis by simp
qed

end
